theory Spec2Isabelle
  imports Complex_Main "HOL-Library.Sublist"
begin

section \<open>Strings and values of the host language\<close>

text \<open>
  A JavaScript string is modelled as a \<^typ>\<open>string\<close>; one \<^typ>\<open>char\<close> stands for one
  UTF-16 code unit in the range 0..255, so the strings of the model are the Latin-1
  strings.  In that range \<open>String.prototype.trim\<close> removes TAB, LF, VT, FF, CR, SPACE
  and NO-BREAK SPACE from both ends.
\<close>

definition is_whitespace :: "char \<Rightarrow> bool" where
  "is_whitespace c = ((of_char c :: nat) \<in> set [9, 10, 11, 12, 13, 32, 160])"

definition trim :: "string \<Rightarrow> string" where
  "trim s = rev (dropWhile is_whitespace (rev (dropWhile is_whitespace s)))"

text \<open>\<open>s.split(',')\<close>: the pieces between the separators; the empty string gives one empty piece.\<close>

fun split :: "char \<Rightarrow> string \<Rightarrow> string list" where
  "split sep [] = [[]]"
| "split sep (c # cs) =
     (if c = sep then [] # split sep cs
      else (case split sep cs of
              [] \<Rightarrow> [[c]]
            | p # ps \<Rightarrow> (c # p) # ps))"

datatype jsval = JUndefined | JNull | JString string | JNumber int | JBoolean bool

text \<open>
  A raised value (the reason of a rejected promise) is any value of the language:
  \<open>Error m\<close> is an \<open>Error\<close> object with the message text \<open>m\<close>, \<open>Thrown v\<close> the primitive
  value \<open>v\<close>, \<open>undefined\<close> and \<open>null\<close> among them.  Raised objects that are no \<open>Error\<close>
  with a text as message are not modelled.
\<close>

datatype js_error = Error string | Thrown jsval

definition message_undefined_message :: string where
  "message_undefined_message = ''Cannot read properties of undefined (reading 'message')''"

definition message_null_message :: string where
  "message_null_message = ''Cannot read properties of null (reading 'message')''"

text \<open>
  The expression \<open>error.message\<close>: the text of an \<open>Error\<close>, a \<open>TypeError\<close> of Node.js when
  \<open>error\<close> is \<open>undefined\<close> or \<open>null\<close>, and \<open>undefined\<close> for every other primitive value.
\<close>

fun message_of :: "js_error \<Rightarrow> js_error + jsval" where
  "message_of (Error m) = Inr (JString m)"
| "message_of (Thrown JUndefined) = Inl (Error message_undefined_message)"
| "message_of (Thrown JNull) = Inl (Error message_null_message)"
| "message_of (Thrown v) = Inr JUndefined"

text \<open>
  The body that \<open>res.send(v)\<close> sends for the values \<open>error.message\<close> can have: the text
  itself, and no body for \<open>undefined\<close>.
\<close>

definition body_of :: "jsval \<Rightarrow> string" where
  "body_of v = (case v of JString t \<Rightarrow> t | _ \<Rightarrow> [])"

text \<open>An object literal is its list of own properties, in insertion order.\<close>

type_synonym object = "(string \<times> jsval) list"

definition get_prop :: "object \<Rightarrow> string \<Rightarrow> jsval" where
  "get_prop obj k = (case map_of obj k of None \<Rightarrow> JUndefined | Some v \<Rightarrow> v)"

text \<open>
  The message of the \<open>TypeError\<close> that Node.js raises for \<open>record.fields.Name\<close> when
  \<open>record.fields\<close> is undefined.
\<close>

definition fields_undefined_message :: string where
  "fields_undefined_message = ''Cannot read properties of undefined (reading 'Name')''"

text \<open>\<open>Array.prototype.map\<close> with a callback that may raise: the first raise ends the map.\<close>

fun map_raising :: "('a \<Rightarrow> js_error + 'b) \<Rightarrow> 'a list \<Rightarrow> js_error + 'b list" where
  "map_raising f [] = Inr []"
| "map_raising f (x # xs) =
     (case f x of
        Inl e \<Rightarrow> Inl e
      | Inr y \<Rightarrow> (case map_raising f xs of Inl e \<Rightarrow> Inl e | Inr ys \<Rightarrow> Inr (y # ys)))"

section \<open>The external collaborator\<close>

text \<open>
  The AppLink SDK is not part of the repository.  It is taken as a parameter: every
  operation either raises (\<open>Inl\<close>) or returns (\<open>Inr\<close>).  A record returned by the query
  engine may lack its field bag (\<open>record_fields = None\<close>).  The answer to a status request
  depends on how many requests were made before it, so \<open>getInfo\<close> takes the number of
  the request.
\<close>

record sf_record =
  record_fields :: "object option"

record query_result =
  totalSize :: nat
  is_done :: bool
  records :: "sf_record list"

record job_handle =
  job_id :: string

record job_info =
  state :: string
  numberRecordsProcessed :: nat
  numberRecordsFailed :: nat

record data_table =
  columns :: "string list"
  rows :: "(string \<times> string) list list"

record ingest_request =
  object_name :: string
  operation :: string
  dataTable :: data_table

record bulk_api =
  ingest :: "ingest_request \<Rightarrow> js_error + job_handle list"
  getInfo :: "job_handle \<Rightarrow> nat \<Rightarrow> js_error + job_info"
  getFailedResults :: "job_handle \<Rightarrow> js_error + object list"

record org =
  org_id :: string
  username :: string
  query :: "string \<Rightarrow> js_error + query_result"
  bulkApi :: bulk_api

record applink =
  getAuthorization :: "string \<Rightarrow> js_error + org"

section \<open>What the program does to the outside\<close>

datatype event =
    CallGetAuthorization string
  | LogConnected string string
  | CallQuery string
  | LogQueryResults nat bool nat
  | LogErrorQuerying string js_error
  | LogConnectedEmptyOrg string string
  | LogStartingBulk
  | CallIngest ingest_request
  | StartMonitor "job_handle option"
  | LogErrorBulkDemo js_error
  | CallGetInfo job_handle
  | LogJobStatus string string nat nat
  | CallGetFailedResults job_handle
  | LogFailedRecords "object list"
  | LogCompleted string nat
  | LogEndedInState string string
  | Sleep nat
  | LogErrorMonitoring js_error

section \<open>The fan-out over the connections (GET /)\<close>

text \<open>
  A per-connection outcome is \<open>{connectionName, accounts}\<close> or
  \<open>{connectionName, error, accounts}\<close>; \<open>error = None\<close> is the absent property, and
  \<open>error = Some v\<close> the property with the value \<open>v\<close> of \<open>error.message\<close>.
\<close>

record outcome =
  connectionName :: string
  accounts :: "object list"
  error :: "jsval option"

text \<open>
  What a handler does with the request: a page, a status with a body, a JSON body, or,
  when the handler itself raises, no response at all (\<open>Unhandled\<close>, the rejection of
  the handler's promise).
\<close>

datatype response =
    Render "outcome list"
  | Send nat string
  | Json object
  | Unhandled js_error

text \<open>The part of the request a caller can set freely: the parameters of its query string.\<close>

record request =
  query_params :: "(string \<times> string) list"

definition soql_accounts :: string where
  "soql_accounts = ''SELECT Name, Id FROM Account''"

text \<open>The callback of \<open>queryResult.records.map\<close>.\<close>

definition project :: "sf_record \<Rightarrow> js_error + object" where
  "project r =
     (case record_fields r of
        None \<Rightarrow> Inl (Error fields_undefined_message)
      | Some fs \<Rightarrow> Inr [(''Name'', get_prop fs ''Name''), (''Id'', get_prop fs ''Id'')])"

text \<open>The body of the \<open>try\<close> block of the per-connection closure, with what it did.\<close>

definition connection_try :: "applink \<Rightarrow> string \<Rightarrow> (js_error + outcome) \<times> event list" where
  "connection_try sdk cname =
     (case getAuthorization sdk (trim cname) of
        Inl e \<Rightarrow> (Inl e, [CallGetAuthorization (trim cname)])
      | Inr og \<Rightarrow>
          (let ev1 = [CallGetAuthorization (trim cname),
                      LogConnected (org_id og) (username og),
                      CallQuery soql_accounts]
           in case query og soql_accounts of
                Inl e \<Rightarrow> (Inl e, ev1)
              | Inr queryResult \<Rightarrow>
                  (let ev2 = ev1 @ [LogQueryResults (totalSize queryResult) (is_done queryResult)
                                      (length (records queryResult))]
                   in case map_raising project (records queryResult) of
                        Inl e \<Rightarrow> (Inl e, ev2)
                      | Inr accs \<Rightarrow>
                          (Inr \<lparr>connectionName = trim cname, accounts = accs, error = None\<rparr>,
                           ev2))))"

text \<open>
  The closure itself.  The \<open>catch\<close> block logs the raised value and builds the failure
  outcome from \<open>error.message\<close>; when that expression raises, the closure is rejected.
\<close>

definition connection_task :: "applink \<Rightarrow> string \<Rightarrow> (js_error + outcome) \<times> event list" where
  "connection_task sdk cname =
     (case connection_try sdk cname of
        (Inr out, evs) \<Rightarrow> (Inr out, evs)
      | (Inl e, evs) \<Rightarrow>
          (case message_of e of
             Inl te \<Rightarrow> (Inl te, evs @ [LogErrorQuerying cname e])
           | Inr m \<Rightarrow>
               (Inr \<lparr>connectionName = trim cname, accounts = [], error = Some m\<rparr>,
                evs @ [LogErrorQuerying cname e])))"

text \<open>
  \<open>Promise.all\<close>.  The promises settle in some order, given as the list \<open>sched\<close> of their
  positions.  A fulfilled promise stores its value at its own position; the first
  rejected one rejects the whole; the whole is fulfilled once every position is filled,
  and stays pending (\<open>None\<close>) otherwise.
\<close>

fun settle :: "(js_error + 'a) list \<Rightarrow> nat list \<Rightarrow> 'a option list \<Rightarrow> js_error + 'a option list" where
  "settle ps [] vals = Inr vals"
| "settle ps (i # sched) vals =
     (if i < length ps then
        (case ps ! i of
           Inl e \<Rightarrow> Inl e
         | Inr v \<Rightarrow> settle ps sched (vals[i := Some v]))
      else settle ps sched vals)"

fun collect :: "'a option list \<Rightarrow> 'a list option" where
  "collect [] = Some []"
| "collect (None # vs) = None"
| "collect (Some v # vs) = (case collect vs of None \<Rightarrow> None | Some ws \<Rightarrow> Some (v # ws))"

definition promise_all :: "(js_error + 'a) list \<Rightarrow> nat list \<Rightarrow> (js_error + 'a list) option" where
  "promise_all ps sched =
     (case settle ps sched (replicate (length ps) None) of
        Inl e \<Rightarrow> Some (Inl e)
      | Inr vals \<Rightarrow> (case collect vals of None \<Rightarrow> None | Some vs \<Rightarrow> Some (Inr vs)))"

text \<open>A schedule in which each of the \<open>n\<close> promises settles exactly once.\<close>

definition valid_schedule :: "nat \<Rightarrow> nat list \<Rightarrow> bool" where
  "valid_schedule n sched = (distinct sched \<and> set sched = {0..<n})"

definition accountsByOrg :: "applink \<Rightarrow> nat list \<Rightarrow> string list \<Rightarrow> (js_error + outcome list) option" where
  "accountsByOrg sdk sched connectionNames =
     promise_all (map (\<lambda>cname. fst (connection_task sdk cname)) connectionNames) sched"

text \<open>
  The handler of GET /: the page on success, status 500 with \<open>error.message\<close> when the
  fan-out rejects.  It takes the request and never reads it.
\<close>

definition index_handler ::
  "applink \<Rightarrow> nat list \<Rightarrow> string list \<Rightarrow> request \<Rightarrow> response option" where
  "index_handler sdk sched connectionNames req =
     (case accountsByOrg sdk sched connectionNames of
        None \<Rightarrow> None
      | Some (Inr outs) \<Rightarrow> Some (Render outs)
      | Some (Inl e) \<Rightarrow>
          (case message_of e of
             Inl te \<Rightarrow> Some (Unhandled te)
           | Inr m \<Rightarrow> Some (Send 500 (body_of m))))"

text \<open>The query texts handed to the query engine by one connection's closure.\<close>

fun queries_sent :: "event list \<Rightarrow> string list" where
  "queries_sent [] = []"
| "queries_sent (CallQuery q # evs) = q # queries_sent evs"
| "queries_sent (ev # evs) = queries_sent evs"

text \<open>\<open>process.env.CONNECTION_NAMES ? process.env.CONNECTION_NAMES.split(',') : []\<close>\<close>

definition connectionNames_of :: "string option \<Rightarrow> string list" where
  "connectionNames_of env =
     (case env of
        None \<Rightarrow> []
      | Some s \<Rightarrow> if s = [] then [] else split (CHR '','') s)"

section \<open>The bulk job monitor\<close>

definition terminal_states :: "string list" where
  "terminal_states = [''JobComplete'', ''Failed'', ''Aborted'']"

text \<open>
  The \<open>while\<close> loop of \<open>monitorBulkJob\<close>, inside its \<open>try\<close> block.  \<open>n\<close> is the number of
  status requests made so far and \<open>tr\<close> what the monitor has done so far.  The loop
  returns \<open>Inl e\<close> when a call raises \<open>e\<close>, \<open>Inr ()\<close> when it leaves the loop, and has
  no value (\<open>None\<close>) when it never leaves it.
\<close>

partial_function (option) monitor_loop ::
  "org \<Rightarrow> job_handle \<Rightarrow> nat \<Rightarrow> event list \<Rightarrow> ((js_error + unit) \<times> event list) option" where
  "monitor_loop og result n tr =
     (case getInfo (bulkApi og) result n of
        Inl e \<Rightarrow> Some (Inl e, tr @ [CallGetInfo result])
      | Inr jobInfo \<Rightarrow>
          (let tr1 = tr @ [CallGetInfo result,
                           LogJobStatus (job_id result) (state jobInfo)
                             (numberRecordsProcessed jobInfo) (numberRecordsFailed jobInfo)];
               isComplete = (state jobInfo \<in> set terminal_states)
           in if isComplete then
                (if state jobInfo = ''JobComplete'' then
                   (if numberRecordsFailed jobInfo > 0 then
                      (case getFailedResults (bulkApi og) result of
                         Inl e \<Rightarrow> Some (Inl e, tr1 @ [CallGetFailedResults result])
                       | Inr failedResults \<Rightarrow>
                           Some (Inr (), tr1 @ [CallGetFailedResults result,
                                                LogFailedRecords failedResults]))
                    else Some (Inr (), tr1 @ [LogCompleted (job_id result)
                                                (numberRecordsProcessed jobInfo)]))
                 else Some (Inr (), tr1 @ [LogEndedInState (job_id result) (state jobInfo)]))
              else monitor_loop og result (n + 1) (tr1 @ [Sleep 5000])))"

declare monitor_loop.simps [code]

text \<open>\<open>monitorBulkJob\<close>: the loop under the outer \<open>try\<close>/\<open>catch\<close>, which logs a raise.\<close>

definition monitorBulkJob :: "org \<Rightarrow> job_handle \<Rightarrow> ((js_error + unit) \<times> event list) option" where
  "monitorBulkJob og result =
     (case monitor_loop og result 0 [] of
        None \<Rightarrow> None
      | Some (Inl e, tr) \<Rightarrow> Some (Inr (), tr @ [LogErrorMonitoring e])
      | Some (Inr u, tr) \<Rightarrow> Some (Inr u, tr))"

text \<open>Observations on what the monitor did.\<close>

definition polls :: "event list \<Rightarrow> nat" where
  "polls tr = length (filter (\<lambda>ev. case ev of CallGetInfo h \<Rightarrow> True | _ \<Rightarrow> False) tr)"

definition fetches :: "event list \<Rightarrow> nat" where
  "fetches tr = length (filter (\<lambda>ev. case ev of CallGetFailedResults h \<Rightarrow> True | _ \<Rightarrow> False) tr)"

definition success_logs :: "event list \<Rightarrow> nat" where
  "success_logs tr = length (filter (\<lambda>ev. case ev of LogCompleted i k \<Rightarrow> True | _ \<Rightarrow> False) tr)"

definition sleeps :: "event list \<Rightarrow> nat" where
  "sleeps tr = length (filter (\<lambda>ev. case ev of Sleep ms \<Rightarrow> True | _ \<Rightarrow> False) tr)"

text \<open>The status request number \<open>k\<close> raises or returns a snapshot in a terminal state.\<close>

definition stops_at :: "org \<Rightarrow> job_handle \<Rightarrow> nat \<Rightarrow> bool" where
  "stops_at og result k =
     (case getInfo (bulkApi og) result k of
        Inl e \<Rightarrow> True
      | Inr jobInfo \<Rightarrow> state jobInfo \<in> set terminal_states)"

text \<open>What one round of the loop that ends in the wait does: request, log, wait.\<close>

definition waiting_round :: "org \<Rightarrow> job_handle \<Rightarrow> nat \<Rightarrow> event list" where
  "waiting_round og result k =
     (case getInfo (bulkApi og) result k of
        Inl e \<Rightarrow> []
      | Inr jobInfo \<Rightarrow>
          [CallGetInfo result,
           LogJobStatus (job_id result) (state jobInfo)
             (numberRecordsProcessed jobInfo) (numberRecordsFailed jobInfo),
           Sleep 5000])"

definition waiting_rounds :: "org \<Rightarrow> job_handle \<Rightarrow> nat \<Rightarrow> nat \<Rightarrow> event list" where
  "waiting_rounds og result n m = concat (map (waiting_round og result) [n..<n + m])"

section \<open>The generators of the demo data\<close>

text \<open>
  \<open>Math.random()\<close> is a parameter: a rational \<open>r\<close> with \<open>0 \<le> r < 1\<close>, and
  \<open>Math.floor(Math.random() * n)\<close> is computed exactly.  \<open>Date.now()\<close> and the text of
  \<open>Math.random().toString(36)\<close> are parameters too.
\<close>

definition floor_random :: "rat \<Rightarrow> nat \<Rightarrow> nat" where
  "floor_random r n = nat \<lfloor>r * of_nat n\<rfloor>"


text \<open>
  \<open>Number.prototype.toString()\<close> on a natural number below \<open>10^21\<close>, as all the numbers
  rendered here are: its decimal digits.
\<close>

fun toString :: "nat \<Rightarrow> string" where
  "toString n =
     (if n < 10 then [char_of (48 + n)]
      else toString (n div 10) @ [char_of (48 + n mod 10)])"

declare toString.simps [simp del]

text \<open>\<open>s.slice(-k)\<close>: the last \<open>k\<close> code units, or all of \<open>s\<close> when it is shorter.\<close>

definition slice_last :: "nat \<Rightarrow> string \<Rightarrow> string" where
  "slice_last k s = drop (length s - k) s"

text \<open>\<open>s.substring(a, b)\<close> for \<open>a \<le> b\<close>; both ends are clamped to the length.\<close>

definition substring :: "nat \<Rightarrow> nat \<Rightarrow> string \<Rightarrow> string" where
  "substring a b s = take (b - a) (drop a s)"

text \<open>
  \<open>toUpperCase\<close> on the texts it is applied to here, the base-36 renderings of numbers:
  the letters a-z become A-Z, every other code unit of such a text stays.
\<close>

definition upper_char :: "char \<Rightarrow> char" where
  "upper_char c =
     (if 97 \<le> (of_char c :: nat) \<and> (of_char c :: nat) \<le> 122
      then char_of ((of_char c :: nat) - 32) else c)"

definition toUpperCase :: "string \<Rightarrow> string" where
  "toUpperCase s = map upper_char s"

definition businessTypes :: "string list" where
  "businessTypes =
    [''Tech'', ''Global'', ''Advanced'', ''Innovative'', ''Strategic'',
     ''Premier'', ''Elite'', ''Dynamic'', ''Pacific'', ''Atlantic'',
     ''Modern'', ''Future'', ''Smart'', ''Connected'', ''Digital'',
     ''Quantum'', ''Unified'', ''Integrated'', ''Precision'', ''Summit'']"

definition businessNames :: "string list" where
  "businessNames =
    [''Solutions'', ''Systems'', ''Enterprises'', ''Industries'', ''Dynamics'',
     ''Partners'', ''Networks'', ''Technologies'', ''Services'', ''Innovations'',
     ''Analytics'', ''Consulting'', ''Operations'', ''Group'', ''Corporation'',
     ''Associates'', ''International'', ''Management'', ''Ventures'', ''Labs'']"

definition industries :: "string list" where
  "industries =
    [''Manufacturing'', ''Software'', ''Healthcare'', ''Logistics'', ''Energy'',
     ''Communications'', ''Engineering'', ''Research'', ''Development'', ''Robotics'']"

definition streetTypes :: "string list" where
  "streetTypes =
    [''Street'', ''Avenue'', ''Boulevard'', ''Road'', ''Drive'',
     ''Lane'', ''Way'', ''Circle'', ''Court'', ''Place'',
     ''Square'', ''Terrace'', ''Parkway'', ''Plaza'']"

definition streetNames :: "string list" where
  "streetNames =
    [''Maple'', ''Oak'', ''Cedar'', ''Pine'', ''Elm'',
     ''Washington'', ''Lincoln'', ''Park'', ''Lake'', ''River'',
     ''Mountain'', ''Valley'', ''Forest'', ''Meadow'', ''Spring'',
     ''Sunset'', ''Highland'', ''Madison'', ''Jefferson'', ''Franklin'']"

definition cities :: "string list" where
  "cities =
    [''San Francisco'', ''New York'', ''Chicago'', ''Los Angeles'', ''Seattle'',
     ''Boston'', ''Austin'', ''Denver'', ''Miami'', ''Portland'',
     ''Atlanta'', ''Dallas'', ''Houston'', ''Phoenix'', ''Minneapolis'']"

text \<open>The entries \<open>{name, abbr}\<close> of \<open>states\<close> as pairs.\<close>

definition states :: "(string \<times> string) list" where
  "states =
    [(''California'', ''CA''), (''New York'', ''NY''), (''Texas'', ''TX''),
     (''Florida'', ''FL''), (''Illinois'', ''IL''), (''Washington'', ''WA''),
     (''Massachusetts'', ''MA''), (''Colorado'', ''CO''), (''Oregon'', ''OR''),
     (''Georgia'', ''GA'')]"

record address_draws =
  r_streetNumber :: rat
  r_streetName :: rat
  r_streetType :: rat
  r_city :: rat
  r_state :: rat
  r_zip :: rat

record address =
  street :: string
  city :: string
  address_state :: string
  stateAbbr :: string
  zip_code :: string

definition generateAddress :: "address_draws \<Rightarrow> address" where
  "generateAddress d =
     (let streetNumber = floor_random (r_streetNumber d) 9900 + 100;
          streetName = streetNames ! floor_random (r_streetName d) (length streetNames);
          streetType = streetTypes ! floor_random (r_streetType d) (length streetTypes);
          cty = cities ! floor_random (r_city d) (length cities);
          st = states ! floor_random (r_state d) (length states);
          zp = floor_random (r_zip d) 90000 + 10000
      in \<lparr>street = toString streetNumber @ '' '' @ streetName @ '' '' @ streetType,
          city = cty,
          address_state = fst st,
          stateAbbr = snd st,
          zip_code = toString zp\<rparr>)"

record name_draws =
  r_type :: rat
  r_name :: rat
  r_industry :: rat
  now :: nat
  randomText :: string
  r_format :: rat

definition generateBusinessName :: "name_draws \<Rightarrow> string" where
  "generateBusinessName d =
     (let type = businessTypes ! floor_random (r_type d) (length businessTypes);
          name = businessNames ! floor_random (r_name d) (length businessNames);
          industry = industries ! floor_random (r_industry d) (length industries);
          timestamp = slice_last 4 (toString (now d));
          randomSuffix = toUpperCase (substring 2 5 (randomText d));
          formats =
            [''Bulk Account '' @ type @ '' '' @ name @ '' '' @ randomSuffix,
             ''Bulk Account '' @ type @ '' '' @ industry @ '' '' @ randomSuffix,
             ''Bulk Account '' @ industry @ '' '' @ name @ '' '' @ timestamp,
             ''Bulk Account '' @ type @ '' '' @ name @ '' '' @ industry @ '' '' @ randomSuffix];
          generatedName = formats ! floor_random (r_format d) (length formats)
      in if length generatedName > 255
         then ''Bulk Account '' @ type @ '' '' @ randomSuffix
         else generatedName)"


section \<open>The bulk demo (GET /bulk-demo)\<close>

definition emptyOrgName :: string where
  "emptyOrgName = ''empty-org''"

definition soql_bulk_accounts :: string where
  "soql_bulk_accounts =
     ''SELECT Id FROM Account WHERE Name LIKE '' @ [CHR 0x27] @ ''Bulk Account%'' @ [CHR 0x27]"

definition bulk_columns :: "string list" where
  "bulk_columns =
     [''Name'', ''BillingStreet'', ''BillingCity'', ''BillingState'',
      ''BillingPostalCode'', ''BillingCountry'']"

text \<open>One round of the loop that fills the data table; the address is drawn first.\<close>

definition bulk_row :: "address_draws \<times> name_draws \<Rightarrow> (string \<times> string) list" where
  "bulk_row d =
     (let addr = generateAddress (fst d)
      in [(''Name'', generateBusinessName (snd d)),
          (''BillingStreet'', street addr),
          (''BillingCity'', city addr),
          (''BillingState'', address_state addr),
          (''BillingPostalCode'', zip_code addr),
          (''BillingCountry'', ''United States'')])"

text \<open>\<open>for (let i = 1; i <= 1000; i++)\<close>; \<open>draws i\<close> are the random values of round \<open>i\<close>.\<close>

definition bulk_rows :: "(nat \<Rightarrow> address_draws \<times> name_draws) \<Rightarrow> (string \<times> string) list list" where
  "bulk_rows draws = map (\<lambda>i. bulk_row (draws i)) [1..<1001]"

text \<open>The message of the \<open>TypeError\<close> of \<open>ingestResults[0].id\<close> on an empty result.\<close>

definition id_undefined_message :: string where
  "id_undefined_message = ''Cannot read properties of undefined (reading 'id')''"

text \<open>
  The \<open>catch\<close> block of the handler: it logs the raised value and answers 500 with
  \<open>error.message\<close>; when that expression raises, the handler sends nothing.
\<close>

definition bulk_demo_catch :: "js_error \<Rightarrow> event list \<Rightarrow> response \<times> event list" where
  "bulk_demo_catch e evs =
     (case message_of e of
        Inl te \<Rightarrow> (Unhandled te, evs @ [LogErrorBulkDemo e])
      | Inr m \<Rightarrow> (Send 500 (body_of m), evs @ [LogErrorBulkDemo e]))"

text \<open>
  The handler: its response and what it did.  The monitor is started and not awaited,
  which is the event \<open>StartMonitor\<close>.
\<close>

definition bulk_demo ::
  "applink \<Rightarrow> string list \<Rightarrow> (nat \<Rightarrow> address_draws \<times> name_draws) \<Rightarrow> response \<times> event list" where
  "bulk_demo sdk connectionNames draws =
     (if emptyOrgName \<notin> set connectionNames
      then (Send 400 ''empty-org connection not found'', [])
      else
        (case getAuthorization sdk emptyOrgName of
           Inl e \<Rightarrow> bulk_demo_catch e [CallGetAuthorization emptyOrgName]
         | Inr og \<Rightarrow>
             (let ev1 = [CallGetAuthorization emptyOrgName,
                         LogConnectedEmptyOrg (org_id og) (username og),
                         CallQuery soql_bulk_accounts]
              in case query og soql_bulk_accounts of
                   Inl e \<Rightarrow> bulk_demo_catch e ev1
                 | Inr queryResult \<Rightarrow>
                     (let ev2 = ev1 @ [LogQueryResults (totalSize queryResult)
                                         (is_done queryResult) (length (records queryResult))]
                      in if length (records queryResult) = 0 then
                           (let request = \<lparr>object_name = ''Account'', operation = ''insert'',
                                           dataTable = \<lparr>columns = bulk_columns,
                                                        rows = bulk_rows draws\<rparr>\<rparr>;
                                ev3 = ev2 @ [LogStartingBulk, CallIngest request]
                            in case ingest (bulkApi og) request of
                                 Inl e \<Rightarrow> bulk_demo_catch e ev3
                               | Inr [] \<Rightarrow>
                                   bulk_demo_catch (Error id_undefined_message)
                                     (ev3 @ [StartMonitor None])
                               | Inr (r # rs) \<Rightarrow>
                                   (Json [(''message'', JString ''Bulk insert job started''),
                                          (''jobId'', JString (job_id r))],
                                    ev3 @ [StartMonitor (Some r)]))
                         else
                           (Json [(''message'',
                                   JString (''Found '' @ toString (length (records queryResult))
                                            @ '' existing bulk-created records'')),
                                  (''status'', JString ''EXISTING_RECORDS'')],
                            ev2)))))"

section \<open>Observations and sample collaborators\<close>

text \<open>The keys handed to the session resolution by one connection's closure.\<close>

fun lookup_keys :: "event list \<Rightarrow> string list" where
  "lookup_keys [] = []"
| "lookup_keys (CallGetAuthorization k # evs) = k # lookup_keys evs"
| "lookup_keys (ev # evs) = lookup_keys evs"

text \<open>
  No step of the connection raises \<open>undefined\<close> or \<open>null\<close>: what the \<open>try\<close> block raises,
  if it raises, is a value whose \<open>message\<close> can be read.
\<close>

definition catchable :: "applink \<Rightarrow> string \<Rightarrow> bool" where
  "catchable sdk cname =
     (case fst (connection_try sdk cname) of
        Inl e \<Rightarrow> e \<noteq> Thrown JUndefined \<and> e \<noteq> Thrown JNull
      | Inr out \<Rightarrow> True)"

text \<open>
  The outcome that the closure of a catchable connection is fulfilled with (the second
  case is the closure rejected, where there is no outcome to speak of).
\<close>

definition outcome_of :: "applink \<Rightarrow> string \<Rightarrow> outcome" where
  "outcome_of sdk cname =
     (case fst (connection_task sdk cname) of
        Inr out \<Rightarrow> out
      | Inl te \<Rightarrow> \<lparr>connectionName = trim cname, accounts = [], error = None\<rparr>)"

text \<open>
  An org with one account, whose job status requests fail; a collaborator that knows
  the connection \<open>org-a\<close> only; one whose errors carry an empty message; and one that
  knows \<open>org-a\<close> and rejects every other name with \<open>undefined\<close>.
\<close>

definition demo_org :: org where
  "demo_org =
     \<lparr>org_id = ''00D000000000001'', username = ''admin@acme.example'',
      query = (\<lambda>q. Inr \<lparr>totalSize = 1, is_done = True,
                          records = [\<lparr>record_fields = Some [(''attributes'', JNull),
                                                              (''Name'', JString ''Acme''),
                                                              (''Id'', JString ''001'')]\<rparr>]\<rparr>),
      bulkApi = \<lparr>ingest = (\<lambda>r. Inr [\<lparr>job_id = ''750''\<rparr>]),
                 getInfo = (\<lambda>h n. Inl (Error ''offline'')),
                 getFailedResults = (\<lambda>h. Inr [])\<rparr>\<rparr>"

definition demo_sdk :: applink where
  "demo_sdk =
     \<lparr>getAuthorization =
        (\<lambda>k. if k = ''org-a'' then Inr demo_org else Inl (Error ''invalid_grant''))\<rparr>"

definition silent_sdk :: applink where
  "silent_sdk = \<lparr>getAuthorization = (\<lambda>k. Inl (Error []))\<rparr>"

definition flaky_sdk :: applink where
  "flaky_sdk =
     \<lparr>getAuthorization =
        (\<lambda>k. if k = ''org-a'' then Inr demo_org else Inl (Thrown JUndefined))\<rparr>"

definition acme_row :: object where
  "acme_row = [(''Name'', JString ''Acme''), (''Id'', JString ''001'')]"

text \<open>
  An org whose query engine answers by the text it is handed: the accounts for the
  text of the fan-out, the contacts for \<open>SELECT Id FROM Contact\<close>, an error otherwise;
  its collaborator; and a request that carries the contact query as a parameter.
\<close>

definition contact_result :: query_result where
  "contact_result =
     \<lparr>totalSize = 1, is_done = True,
      records = [\<lparr>record_fields = Some [(''Id'', JString ''003'')]\<rparr>]\<rparr>"

definition picky_org :: org where
  "picky_org =
     \<lparr>org_id = ''00D000000000003'', username = ''admin@picky.example'',
      query = (\<lambda>q. if q = ''SELECT Name, Id FROM Account''
                     then Inr \<lparr>totalSize = 1, is_done = True,
                               records = [\<lparr>record_fields = Some [(''Name'', JString ''Acme''),
                                                                   (''Id'', JString ''001'')]\<rparr>]\<rparr>
                     else if q = ''SELECT Id FROM Contact'' then Inr contact_result
                     else Inl (Error ''MALFORMED_QUERY'')),
      bulkApi = \<lparr>ingest = (\<lambda>r. Inr []),
                 getInfo = (\<lambda>h n. Inl (Error ''offline'')),
                 getFailedResults = (\<lambda>h. Inr [])\<rparr>\<rparr>"

definition picky_sdk :: applink where
  "picky_sdk =
     \<lparr>getAuthorization =
        (\<lambda>k. if k = ''org-a'' then Inr picky_org else Inl (Error ''invalid_grant''))\<rparr>"

definition contact_request :: request where
  "contact_request = \<lparr>query_params = [(''queryText'', ''SELECT Id FROM Contact'')]\<rparr>"

text \<open>
  A job handle, and an org whose status requests follow a script: \<open>Queued\<close>, then
  \<open>InProgress\<close>, then the given last answer for every later request.
\<close>

definition demo_job :: job_handle where
  "demo_job = \<lparr>job_id = ''750xx00000GtITr''\<rparr>"

definition scripted_org :: "(nat \<Rightarrow> js_error + job_info) \<Rightarrow> (js_error + object list) \<Rightarrow> org" where
  "scripted_org script failed =
     \<lparr>org_id = ''00D000000000002'', username = ''admin@empty.example'',
      query = (\<lambda>q. Inr \<lparr>totalSize = 0, is_done = True, records = []\<rparr>),
      bulkApi = \<lparr>ingest = (\<lambda>r. Inr [demo_job]),
                 getInfo = (\<lambda>h. script),
                 getFailedResults = (\<lambda>h. failed)\<rparr>\<rparr>"

definition info_queued :: job_info where
  "info_queued = \<lparr>state = ''Queued'', numberRecordsProcessed = 0, numberRecordsFailed = 0\<rparr>"

definition info_in_progress :: job_info where
  "info_in_progress =
     \<lparr>state = ''InProgress'', numberRecordsProcessed = 500, numberRecordsFailed = 0\<rparr>"

definition info_complete :: "nat \<Rightarrow> job_info" where
  "info_complete failed =
     \<lparr>state = ''JobComplete'', numberRecordsProcessed = 1000, numberRecordsFailed = failed\<rparr>"

definition script_then :: "js_error + job_info \<Rightarrow> nat \<Rightarrow> js_error + job_info" where
  "script_then lst k =
     (if k = 0 then Inr info_queued else if k = 1 then Inr info_in_progress else lst)"


text \<open>Sample random values, and a collaborator that knows the connection \<open>empty-org\<close> only.\<close>

definition demo_name_draws :: name_draws where
  "demo_name_draws =
     \<lparr>r_type = 0, r_name = 1/2, r_industry = 9/10, now = 1730000000123,
      randomText = ''0.4fzyo82mvyr'', r_format = 3/4\<rparr>"

definition demo_address_draws :: address_draws where
  "demo_address_draws =
     \<lparr>r_streetNumber = 0, r_streetName = 1/2, r_streetType = 1/2, r_city = 1/5,
      r_state = 9/10, r_zip = 1/2\<rparr>"

definition demo_draws :: "nat \<Rightarrow> address_draws \<times> name_draws" where
  "demo_draws i = (demo_address_draws, demo_name_draws)"

definition empty_org_sdk :: applink where
  "empty_org_sdk =
     \<lparr>getAuthorization =
        (\<lambda>k. if k = ''empty-org'' then Inr (scripted_org (script_then (Inr (info_complete 0))) (Inr []))
              else Inl (Error ''invalid_grant''))\<rparr>"

section \<open>Properties of the fan-out\<close>

lemma trim_org_a: "trim ''org-a'' = ''org-a''"
  by (simp add: trim_def is_whitespace_def)

lemma trim_org_b: "trim '' org-b'' = ''org-b''"
  by (simp add: trim_def is_whitespace_def)

lemma trim_org_a_spaced: "trim '' org-a '' = ''org-a''"
  by (simp add: trim_def is_whitespace_def)

lemma demo_task_a:
  "connection_task demo_sdk ''org-a'' =
     (Inr \<lparr>connectionName = ''org-a'', accounts = [acme_row], error = None\<rparr>,
      [CallGetAuthorization ''org-a'',
       LogConnected ''00D000000000001'' ''admin@acme.example'',
       CallQuery ''SELECT Name, Id FROM Account'',
       LogQueryResults 1 True 1])"
  by (simp add: connection_task_def connection_try_def trim_org_a demo_sdk_def demo_org_def
        project_def get_prop_def soql_accounts_def acme_row_def)

lemma demo_task_b:
  "connection_task demo_sdk '' org-b'' =
     (Inr \<lparr>connectionName = ''org-b'', accounts = [],
          error = Some (JString ''invalid_grant'')\<rparr>,
      [CallGetAuthorization ''org-b'', LogErrorQuerying '' org-b'' (Error ''invalid_grant'')])"
  by (simp add: connection_task_def connection_try_def trim_org_b demo_sdk_def)

lemma message_of_caught:
  "e \<noteq> Thrown JUndefined \<Longrightarrow> e \<noteq> Thrown JNull \<Longrightarrow> \<exists>m. message_of e = Inr m"
  by (cases e rule: message_of.cases) simp_all

lemma connection_task_fulfils:
  "catchable sdk cname \<Longrightarrow> \<exists>out. fst (connection_task sdk cname) = Inr out"
  by (auto simp: catchable_def connection_task_def split: prod.splits sum.splits
        dest: message_of_caught)

lemma connection_task_name:
  "fst (connection_task sdk cname) = Inr out \<Longrightarrow> connectionName out = trim cname"
  by (auto simp: connection_task_def connection_try_def Let_def split: prod.splits sum.splits)

lemma task_outcome_of:
  "catchable sdk cname \<Longrightarrow> fst (connection_task sdk cname) = Inr (outcome_of sdk cname)"
  using connection_task_fulfils [of sdk cname] by (auto simp: outcome_of_def)

lemma collect_map_Some: "collect (map Some vs) = Some vs"
  by (induction vs) simp_all

text \<open>
  When every promise is fulfilled, settling them in any order fills exactly the
  positions named in the schedule, each with the value of its own promise.
\<close>

lemma settle_fulfilled:
  assumes "\<forall>i<length ps. ps ! i = Inr (vs ! i)" and "length vals = length ps"
  shows "\<exists>vals'. settle ps sched vals = Inr vals' \<and> length vals' = length ps \<and>
           (\<forall>i<length ps. vals' ! i = (if i \<in> set sched then Some (vs ! i) else vals ! i))"
  using assms
proof (induction sched arbitrary: vals)
  case Nil
  then show ?case by simp
next
  case (Cons j sched)
  show ?case
  proof (cases "j < length ps")
    case True
    let ?vals = "vals[j := Some (vs ! j)]"
    have step: "settle ps (j # sched) vals = settle ps sched ?vals"
      using True Cons.prems(1) by simp
    have "length ?vals = length ps" using Cons.prems(2) by simp
    from Cons.IH [OF Cons.prems(1) this] obtain vals' where
      v: "settle ps sched ?vals = Inr vals'" "length vals' = length ps"
         "\<forall>i<length ps. vals' ! i = (if i \<in> set sched then Some (vs ! i) else ?vals ! i)"
      by blast
    have "\<forall>i<length ps. vals' ! i = (if i \<in> set (j # sched) then Some (vs ! i) else vals ! i)"
      using v(3) Cons.prems(2) by (auto simp: nth_list_update)
    with v(1,2) step show ?thesis by simp
  next
    case False
    have step: "settle ps (j # sched) vals = settle ps sched vals"
      using False by simp
    from Cons.IH [OF Cons.prems] obtain vals' where
      v: "settle ps sched vals = Inr vals'" "length vals' = length ps"
         "\<forall>i<length ps. vals' ! i = (if i \<in> set sched then Some (vs ! i) else vals ! i)"
      by blast
    have "\<forall>i<length ps. vals' ! i = (if i \<in> set (j # sched) then Some (vs ! i) else vals ! i)"
      using v(3) False by auto
    with v(1,2) step show ?thesis by simp
  qed
qed

lemma promise_all_fulfilled:
  assumes "valid_schedule (length vs) sched"
  shows "promise_all (map Inr vs) sched = Some (Inr vs)"
proof -
  let ?ps = "map Inr vs :: (js_error + 'a) list"
  have a: "\<forall>i<length ?ps. ?ps ! i = Inr (vs ! i)" by simp
  have b: "length (replicate (length ?ps) (None :: 'a option)) = length ?ps" by simp
  from settle_fulfilled [OF a b, of sched] obtain vals' where
    v: "settle ?ps sched (replicate (length ?ps) None) = Inr vals'" "length vals' = length ?ps"
       "\<forall>i<length ?ps. vals' ! i =
          (if i \<in> set sched then Some (vs ! i) else replicate (length ?ps) None ! i)"
    by blast
  have "set sched = {0..<length vs}" using assms by (simp add: valid_schedule_def)
  with v(3) have "\<forall>i<length vs. vals' ! i = Some (vs ! i)" by simp
  with v(2) have "vals' = map Some vs" by (simp add: nth_equalityI)
  with v(1) show ?thesis by (simp add: promise_all_def collect_map_Some)
qed

lemma accountsByOrg_eq:
  assumes "valid_schedule (length names) sched" and "list_all (catchable sdk) names"
  shows "accountsByOrg sdk sched names = Some (Inr (map (outcome_of sdk) names))"
proof -
  have "map (\<lambda>cname. fst (connection_task sdk cname)) names = map Inr (map (outcome_of sdk) names)"
    using assms(2) by (simp add: list_all_iff task_outcome_of)
  moreover have "valid_schedule (length (map (outcome_of sdk) names)) sched"
    using assms(1) by simp
  ultimately show ?thesis
    unfolding accountsByOrg_def using promise_all_fulfilled by metis
qed

lemma demo_schedule: "valid_schedule (length [''org-a'', '' org-b'']) [1, 0]"
  by (auto simp: valid_schedule_def)

lemma demo_catchable: "list_all (catchable demo_sdk) [''org-a'', '' org-b'']"
  by (simp add: catchable_def connection_try_def trim_org_a trim_org_b demo_sdk_def demo_org_def
        project_def soql_accounts_def)

lemma flaky_task_a:
  "fst (connection_task flaky_sdk ''org-a'') =
     Inr \<lparr>connectionName = ''org-a'', accounts = [acme_row], error = None\<rparr>"
  by (simp add: connection_task_def connection_try_def trim_org_a flaky_sdk_def demo_org_def
        project_def get_prop_def soql_accounts_def acme_row_def)

lemma flaky_task_b:
  "fst (connection_task flaky_sdk '' org-b'') = Inl (Error message_undefined_message)"
  by (simp add: connection_task_def connection_try_def trim_org_b flaky_sdk_def)

text \<open>
  When no step of any connection raises \<open>undefined\<close> or \<open>null\<close>, the fan-out is fulfilled,
  in every completion order, with one outcome per name at the position of the name.
\<close>

lemma fanout_positional_caught:
  assumes "valid_schedule (length names) sched" and "list_all (catchable sdk) names"
  shows "\<exists>outs. accountsByOrg sdk sched names = Some (Inr outs)
           \<and> length outs = length names
           \<and> (\<forall>i<length names. fst (connection_task sdk (names ! i)) = Inr (outs ! i)
                 \<and> connectionName (outs ! i) = trim (names ! i))"
proof -
  let ?outs = "map (outcome_of sdk) names"
  have "accountsByOrg sdk sched names = Some (Inr ?outs)"
    using assms by (rule accountsByOrg_eq)
  moreover have "fst (connection_task sdk (names ! i)) = Inr (?outs ! i)
                 \<and> connectionName (?outs ! i) = trim (names ! i)"
    if "i < length names" for i
  proof -
    from that assms(2) have "catchable sdk (names ! i)" by (simp add: list_all_length)
    then have "fst (connection_task sdk (names ! i)) = Inr (outcome_of sdk (names ! i))"
      by (rule task_outcome_of)
    with that connection_task_name [OF this] show ?thesis by simp
  qed
  ultimately show ?thesis by simp
qed

text \<open>
  Claim C1 asks for one outcome per connection name, in the order of the names,
  whatever completes first or fails.  The fan-out does not give that when a step is
  rejected with \<open>undefined\<close>: for the names \<open>org-a\<close> and \<open>org-b\<close>, of which the first
  resolves and has one account and the second is rejected with \<open>undefined\<close>, the \<open>catch\<close>
  block of the second closure raises on \<open>error.message\<close>, the fan-out is rejected in
  either completion order, and the handler answers 500 with no outcome at all.
\<close>

theorem fanout_rejected_by_undefined:
  "getAuthorization flaky_sdk (trim '' org-b'') = Inl (Thrown JUndefined)
   \<and> accountsByOrg flaky_sdk [0, 1] [''org-a'', '' org-b''] =
       Some (Inl (Error ''Cannot read properties of undefined (reading 'message')''))
   \<and> accountsByOrg flaky_sdk [1, 0] [''org-a'', '' org-b''] =
       Some (Inl (Error ''Cannot read properties of undefined (reading 'message')''))
   \<and> index_handler flaky_sdk [0, 1] [''org-a'', '' org-b''] \<lparr>query_params = []\<rparr> =
       Some (Send 500 ''Cannot read properties of undefined (reading 'message')'')
   \<and> index_handler flaky_sdk [1, 0] [''org-a'', '' org-b''] \<lparr>query_params = []\<rparr> =
       Some (Send 500 ''Cannot read properties of undefined (reading 'message')'')"
proof -
  have g: "getAuthorization flaky_sdk (trim '' org-b'') = Inl (Thrown JUndefined)"
    by (simp add: trim_org_b flaky_sdk_def)
  have a: "accountsByOrg flaky_sdk [0, 1] [''org-a'', '' org-b''] =
             Some (Inl (Error message_undefined_message))"
    by (simp add: accountsByOrg_def promise_all_def flaky_task_a flaky_task_b)
  have b: "accountsByOrg flaky_sdk [1, 0] [''org-a'', '' org-b''] =
             Some (Inl (Error message_undefined_message))"
    by (simp add: accountsByOrg_def promise_all_def flaky_task_a flaky_task_b)
  from g a b show ?thesis
    by (simp add: index_handler_def body_of_def message_undefined_message_def)
qed

lemma connection_try_raises:
  assumes "getAuthorization sdk (trim cname) = Inl e
           \<or> (\<exists>og. getAuthorization sdk (trim cname) = Inr og
                 \<and> (query og soql_accounts = Inl e
                    \<or> (\<exists>qr. query og soql_accounts = Inr qr
                          \<and> map_raising project (records qr) = Inl e)))"
  shows "fst (connection_try sdk cname) = Inl e"
  using assms by (auto simp: connection_try_def Let_def)

lemma connection_task_catches:
  "fst (connection_try sdk cname) = Inl e \<Longrightarrow> message_of e = Inr m \<Longrightarrow>
   fst (connection_task sdk cname) =
     Inr \<lparr>connectionName = trim cname, accounts = [], error = Some m\<rparr>"
  by (auto simp: connection_task_def split: prod.splits sum.splits)

lemma connection_task_depends_on_key:
  "getAuthorization sdk' (trim cname) = getAuthorization sdk (trim cname) \<Longrightarrow>
   connection_task sdk' cname = connection_task sdk cname"
  by (simp add: connection_task_def connection_try_def)

lemma outcome_of_depends_on_key:
  "getAuthorization sdk' (trim cname) = getAuthorization sdk (trim cname) \<Longrightarrow>
   outcome_of sdk' cname = outcome_of sdk cname"
  by (simp add: outcome_of_def connection_task_def connection_try_def)

text \<open>
  Claim C2, as amended.  Let no step of any connection raise \<open>undefined\<close> or \<open>null\<close>.  If
  session resolution, query execution or record projection raises \<open>e\<close> for the
  connection at position \<open>k\<close>, the fan-out is still fulfilled and the handler renders the
  page (nothing is raised to the caller), the outcome at \<open>k\<close> has the trimmed name, no
  accounts and, as its error, the message of \<open>e\<close> as it is (the text of an \<open>Error\<close>, empty
  when that text is empty); and for every such collaborator that answers position
  \<open>i\<close>'s key as this one does (one, say, for which \<open>k\<close> does not fail), the outcome at \<open>i\<close>
  is the same.
\<close>

theorem failure_absorbed:
  assumes sched: "valid_schedule (length names) sched"
    and k: "k < length names"
    and raises:
      "getAuthorization sdk (trim (names ! k)) = Inl e
       \<or> (\<exists>og. getAuthorization sdk (trim (names ! k)) = Inr og
             \<and> (query og soql_accounts = Inl e
                \<or> (\<exists>qr. query og soql_accounts = Inr qr
                      \<and> map_raising project (records qr) = Inl e)))"
    and caught: "list_all (catchable sdk) names"
  shows "\<exists>outs m. message_of e = Inr m
           \<and> (\<forall>msg. e = Error msg \<longrightarrow> m = JString msg)
           \<and> accountsByOrg sdk sched names = Some (Inr outs)
           \<and> (\<forall>req. index_handler sdk sched names req = Some (Render outs))
           \<and> length outs = length names
           \<and> outs ! k = \<lparr>connectionName = trim (names ! k), accounts = [], error = Some m\<rparr>
           \<and> (\<forall>sdk' i. i < length names \<and> list_all (catchable sdk') names
                 \<and> getAuthorization sdk' (trim (names ! i)) = getAuthorization sdk (trim (names ! i))
                 \<longrightarrow> (\<exists>outs'. accountsByOrg sdk' sched names = Some (Inr outs')
                        \<and> outs' ! i = outs ! i))"
proof -
  let ?outs = "map (outcome_of sdk) names"
  have all: "accountsByOrg sdk sched names = Some (Inr ?outs)"
    using sched caught by (rule accountsByOrg_eq)
  have try_k: "fst (connection_try sdk (names ! k)) = Inl e"
    using raises by (rule connection_try_raises)
  have ck: "catchable sdk (names ! k)"
    using caught k by (simp add: list_all_length)
  with try_k have "e \<noteq> Thrown JUndefined" and "e \<noteq> Thrown JNull"
    by (simp_all add: catchable_def)
  then obtain m where m: "message_of e = Inr m"
    using message_of_caught by blast
  have verbatim: "\<forall>msg. e = Error msg \<longrightarrow> m = JString msg"
    using m by auto
  have "fst (connection_task sdk (names ! k)) =
          Inr \<lparr>connectionName = trim (names ! k), accounts = [], error = Some m\<rparr>"
    using try_k m by (rule connection_task_catches)
  then have atk: "?outs ! k = \<lparr>connectionName = trim (names ! k), accounts = [], error = Some m\<rparr>"
    using k ck by (simp add: task_outcome_of)
  have page: "\<forall>req. index_handler sdk sched names req = Some (Render ?outs)"
    by (simp add: index_handler_def all)
  have others: "\<exists>outs'. accountsByOrg sdk' sched names = Some (Inr outs') \<and> outs' ! i = ?outs ! i"
    if "i < length names" and "list_all (catchable sdk') names"
      and "getAuthorization sdk' (trim (names ! i)) = getAuthorization sdk (trim (names ! i))"
    for sdk' i
  proof -
    have "accountsByOrg sdk' sched names = Some (Inr (map (outcome_of sdk') names))"
      using sched that(2) by (rule accountsByOrg_eq)
    moreover have "map (outcome_of sdk') names ! i = ?outs ! i"
      using that(1,3) by (simp add: outcome_of_depends_on_key [of sdk' _ sdk])
    ultimately show ?thesis by simp
  qed
  have iso: "\<forall>sdk' i. i < length names \<and> list_all (catchable sdk') names
            \<and> getAuthorization sdk' (trim (names ! i)) = getAuthorization sdk (trim (names ! i))
            \<longrightarrow> (\<exists>outs'. accountsByOrg sdk' sched names = Some (Inr outs')
                   \<and> outs' ! i = ?outs ! i)"
  proof (intro allI impI)
    fix sdk' :: applink and i
    assume h: "i < length names \<and> list_all (catchable sdk') names
            \<and> getAuthorization sdk' (trim (names ! i)) = getAuthorization sdk (trim (names ! i))"
    from h have h1: "i < length names" by (rule conjunct1)
    from h have h2: "list_all (catchable sdk') names" by (rule conjunct2 [THEN conjunct1])
    from h have h3:
      "getAuthorization sdk' (trim (names ! i)) = getAuthorization sdk (trim (names ! i))"
      by (rule conjunct2 [THEN conjunct2])
    show "\<exists>outs'. accountsByOrg sdk' sched names = Some (Inr outs') \<and> outs' ! i = ?outs ! i"
      by (rule others [OF h1 h2 h3])
  qed
  have len: "length ?outs = length names" by simp
  from m verbatim all page len atk iso show ?thesis
    by (intro exI [of _ ?outs] exI [of _ m] conjI)
qed

theorem failure_absorbed_witness:
  "valid_schedule (length [''org-a'', '' org-b'']) [1, 0]
   \<and> (1::nat) < length [''org-a'', '' org-b'']
   \<and> getAuthorization demo_sdk (trim ([''org-a'', '' org-b''] ! 1)) = Inl (Error ''invalid_grant'')
   \<and> list_all (catchable demo_sdk) [''org-a'', '' org-b'']
   \<and> (case accountsByOrg demo_sdk [1, 0] [''org-a'', '' org-b''] of
         Some (Inr outs) \<Rightarrow>
           outs ! 1 = \<lparr>connectionName = ''org-b'', accounts = [],
                       error = Some (JString ''invalid_grant'')\<rparr>
       | _ \<Rightarrow> False)"
proof -
  have k: "(1::nat) < length [''org-a'', '' org-b'']" by simp
  have r: "getAuthorization demo_sdk (trim ([''org-a'', '' org-b''] ! 1)) =
             Inl (Error ''invalid_grant'')"
    by (simp add: trim_org_b demo_sdk_def)
  from failure_absorbed [OF demo_schedule k disjI1 demo_catchable, OF r] obtain outs m where
    "message_of (Error ''invalid_grant'') = Inr m"
    "accountsByOrg demo_sdk [1, 0] [''org-a'', '' org-b''] = Some (Inr outs)"
    "outs ! 1 = \<lparr>connectionName = trim ([''org-a'', '' org-b''] ! 1), accounts = [],
                 error = Some m\<rparr>"
    by blast
  with demo_schedule k r demo_catchable show ?thesis by (auto simp: trim_org_b)
qed

text \<open>
  Claim C2 as stated fails: the collaborator may raise an error whose message is
  empty, and the outcome then carries the empty error text.
\<close>

theorem failure_absorbed_counterexample:
  "getAuthorization silent_sdk (trim ''org-b'') = Inl (Error [])
   \<and> accountsByOrg silent_sdk [0] [''org-b''] =
       Some (Inr [\<lparr>connectionName = ''org-b'', accounts = [], error = Some (JString [])\<rparr>])"
  by (simp add: silent_sdk_def accountsByOrg_def promise_all_def connection_task_def
        connection_try_def trim_def is_whitespace_def)

text \<open>
  Claim C6.  For a record with a field bag, the projection is the object with exactly
  the two properties \<open>Name\<close> and \<open>Id\<close>, in this order, whose values are the \<open>Name\<close> and
  \<open>Id\<close> entries of the bag; no other entry of the bag is kept.
\<close>

theorem projection_name_and_id:
  assumes "record_fields r = Some fs"
  shows "project r = Inr [(''Name'', get_prop fs ''Name''), (''Id'', get_prop fs ''Id'')]
       \<and> (\<exists>row. project r = Inr row
              \<and> map fst row = [''Name'', ''Id'']
              \<and> get_prop row ''Name'' = get_prop fs ''Name''
              \<and> get_prop row ''Id'' = get_prop fs ''Id''
              \<and> (\<forall>k. k \<noteq> ''Name'' \<and> k \<noteq> ''Id'' \<longrightarrow> map_of row k = None))"
  using assms by (simp add: project_def get_prop_def)

theorem projection_name_and_id_witness:
  "record_fields \<lparr>record_fields = Some [(''attributes'', JNull), (''Name'', JString ''Acme''),
                                        (''Id'', JString ''001'')]\<rparr> =
     Some [(''attributes'', JNull), (''Name'', JString ''Acme''), (''Id'', JString ''001'')]
   \<and> project \<lparr>record_fields = Some [(''attributes'', JNull), (''Name'', JString ''Acme''),
                                    (''Id'', JString ''001'')]\<rparr> =
       Inr [(''Name'', JString ''Acme''), (''Id'', JString ''001'')]"
proof -
  let ?fs = "[(''attributes'', JNull), (''Name'', JString ''Acme''), (''Id'', JString ''001'')]"
  have f: "record_fields \<lparr>record_fields = Some ?fs\<rparr> = Some ?fs" by simp
  from projection_name_and_id [OF f]
  have "project \<lparr>record_fields = Some ?fs\<rparr> =
          Inr [(''Name'', get_prop ?fs ''Name''), (''Id'', get_prop ?fs ''Id'')]"
    by (rule conjunct1)
  with f show ?thesis by (simp add: get_prop_def)
qed

text \<open>
  Claim C7.  The closure of a connection name reads the session resolution at the
  trimmed name and nowhere else: two collaborators that answer the trimmed name alike
  give the same closure, and the only lookup key is the trimmed name.  Every outcome
  the closure is fulfilled with has the trimmed name as its \<open>connectionName\<close>: the
  success outcome, built from what the session resolved for the trimmed name returns,
  and the failure outcome, built from the error raised for the trimmed name.
\<close>

theorem lookup_key_trimmed:
  "(\<forall>sdk'. getAuthorization sdk' (trim cname) = getAuthorization sdk (trim cname) \<longrightarrow>
       connection_task sdk' cname = connection_task sdk cname)
   \<and> lookup_keys (snd (connection_task sdk cname)) = [trim cname]
   \<and> (\<forall>out. fst (connection_task sdk cname) = Inr out \<longrightarrow> connectionName out = trim cname)
   \<and> (\<forall>og qr accs. getAuthorization sdk (trim cname) = Inr og
          \<and> query og soql_accounts = Inr qr
          \<and> map_raising project (records qr) = Inr accs \<longrightarrow>
          fst (connection_task sdk cname) =
            Inr \<lparr>connectionName = trim cname, accounts = accs, error = None\<rparr>)
   \<and> (\<forall>msg. getAuthorization sdk (trim cname) = Inl (Error msg) \<longrightarrow>
          fst (connection_task sdk cname) =
            Inr \<lparr>connectionName = trim cname, accounts = [], error = Some (JString msg)\<rparr>)"
proof (intro conjI allI impI)
  fix sdk' :: applink
  assume "getAuthorization sdk' (trim cname) = getAuthorization sdk (trim cname)"
  then show "connection_task sdk' cname = connection_task sdk cname"
    by (rule connection_task_depends_on_key)
next
  show "lookup_keys (snd (connection_task sdk cname)) = [trim cname]"
    by (simp add: connection_task_def connection_try_def Let_def split: sum.splits prod.splits)
next
  fix out assume "fst (connection_task sdk cname) = Inr out"
  then show "connectionName out = trim cname" by (rule connection_task_name)
next
  fix og qr accs
  assume "getAuthorization sdk (trim cname) = Inr og \<and> query og soql_accounts = Inr qr
          \<and> map_raising project (records qr) = Inr accs"
  then show "fst (connection_task sdk cname) =
            Inr \<lparr>connectionName = trim cname, accounts = accs, error = None\<rparr>"
    by (simp add: connection_task_def connection_try_def Let_def)
next
  fix msg assume "getAuthorization sdk (trim cname) = Inl (Error msg)"
  then show "fst (connection_task sdk cname) =
            Inr \<lparr>connectionName = trim cname, accounts = [], error = Some (JString msg)\<rparr>"
    by (simp add: connection_task_def connection_try_def)
qed

theorem lookup_key_trimmed_witness:
  "getAuthorization demo_sdk (trim '' org-a '') = Inr demo_org
   \<and> getAuthorization demo_sdk '' org-a '' = Inl (Error ''invalid_grant'')
   \<and> fst (connection_task demo_sdk '' org-a '') =
       Inr \<lparr>connectionName = ''org-a'', accounts = [acme_row], error = None\<rparr>
   \<and> lookup_keys (snd (connection_task demo_sdk '' org-a '')) = [''org-a'']"
proof -
  have g: "getAuthorization demo_sdk (trim '' org-a '') = Inr demo_org"
    by (simp add: trim_org_a_spaced demo_sdk_def)
  have u: "getAuthorization demo_sdk '' org-a '' = Inl (Error ''invalid_grant'')"
    by (simp add: demo_sdk_def)
  have q: "query demo_org soql_accounts =
             Inr \<lparr>totalSize = 1, is_done = True,
                  records = [\<lparr>record_fields = Some [(''attributes'', JNull),
                                                      (''Name'', JString ''Acme''),
                                                      (''Id'', JString ''001'')]\<rparr>]\<rparr>"
    by (simp add: demo_org_def)
  have p: "map_raising project
             (records \<lparr>totalSize = 1, is_done = True,
                  records = [\<lparr>record_fields = Some [(''attributes'', JNull),
                                                      (''Name'', JString ''Acme''),
                                                      (''Id'', JString ''001'')]\<rparr>]\<rparr>) =
             Inr [acme_row]"
    by (simp add: project_def get_prop_def acme_row_def)
  note t = lookup_key_trimmed [where sdk = demo_sdk and cname = "'' org-a ''"]
  from t g q p have "fst (connection_task demo_sdk '' org-a '') =
       Inr \<lparr>connectionName = trim '' org-a '', accounts = [acme_row], error = None\<rparr>"
    by blast
  moreover from t have "lookup_keys (snd (connection_task demo_sdk '' org-a '')) = [trim '' org-a '']"
    by blast
  ultimately show ?thesis using g u by (simp add: trim_org_a_spaced)
qed

lemma connection_task_depends_on_answer:
  assumes "getAuthorization sdk (trim cname) = Inr og"
    and "getAuthorization sdk' (trim cname) = Inr og'"
    and "org_id og' = org_id og" and "username og' = username og"
    and "query og' soql_accounts = query og soql_accounts"
  shows "connection_task sdk' cname = connection_task sdk cname"
  using assms by (simp add: connection_task_def connection_try_def)

lemma picky_task:
  "connection_task picky_sdk ''org-a'' =
     (Inr \<lparr>connectionName = ''org-a'', accounts = [acme_row], error = None\<rparr>,
      [CallGetAuthorization ''org-a'',
       LogConnected ''00D000000000003'' ''admin@picky.example'',
       CallQuery ''SELECT Name, Id FROM Account'',
       LogQueryResults 1 True 1])"
  by (simp add: connection_task_def connection_try_def trim_org_a picky_sdk_def picky_org_def
        project_def get_prop_def soql_accounts_def acme_row_def)

text \<open>
  Claim C8, as amended.  The fan-out takes no query text from its caller: the handler
  answers the same whatever the request carries.  The text handed to the query engine
  of every connection whose session is resolved is the fixed
  \<open>SELECT Name, Id FROM Account\<close>, unchanged: the closure is fulfilled from the
  engine's answer to this very text, and two engines that answer this text alike give
  the same closure, whatever they answer to other texts.
\<close>

theorem query_text_fixed:
  "(\<forall>og. getAuthorization sdk (trim cname) = Inr og \<longrightarrow>
       (\<forall>qr accs. query og ''SELECT Name, Id FROM Account'' = Inr qr
            \<and> map_raising project (records qr) = Inr accs \<longrightarrow>
            fst (connection_task sdk cname) =
              Inr \<lparr>connectionName = trim cname, accounts = accs, error = None\<rparr>)
       \<and> (\<forall>msg. query og ''SELECT Name, Id FROM Account'' = Inl (Error msg) \<longrightarrow>
            fst (connection_task sdk cname) =
              Inr \<lparr>connectionName = trim cname, accounts = [],
                   error = Some (JString msg)\<rparr>)
       \<and> (\<forall>sdk' og'. getAuthorization sdk' (trim cname) = Inr og'
            \<and> org_id og' = org_id og \<and> username og' = username og
            \<and> query og' ''SELECT Name, Id FROM Account'' =
                query og ''SELECT Name, Id FROM Account'' \<longrightarrow>
            connection_task sdk' cname = connection_task sdk cname))
   \<and> queries_sent (snd (connection_task sdk cname)) =
       (case getAuthorization sdk (trim cname) of
          Inl e \<Rightarrow> []
        | Inr og \<Rightarrow> [''SELECT Name, Id FROM Account''])
   \<and> (\<forall>sched names req req'.
          index_handler sdk sched names req = index_handler sdk sched names req')"
proof -
  have fixed: "soql_accounts = ''SELECT Name, Id FROM Account''"
    by (simp add: soql_accounts_def)
  have ok: "fst (connection_task sdk cname) =
              Inr \<lparr>connectionName = trim cname, accounts = accs, error = None\<rparr>"
    if "getAuthorization sdk (trim cname) = Inr og"
      and "query og ''SELECT Name, Id FROM Account'' = Inr qr"
      and "map_raising project (records qr) = Inr accs" for og qr accs
    using that by (simp add: connection_task_def connection_try_def Let_def fixed)
  have ko: "fst (connection_task sdk cname) =
              Inr \<lparr>connectionName = trim cname, accounts = [], error = Some (JString msg)\<rparr>"
    if "getAuthorization sdk (trim cname) = Inr og"
      and "query og ''SELECT Name, Id FROM Account'' = Inl (Error msg)" for og msg
    using that by (simp add: connection_task_def connection_try_def Let_def fixed)
  have same: "connection_task sdk' cname = connection_task sdk cname"
    if "getAuthorization sdk (trim cname) = Inr og"
      and "getAuthorization sdk' (trim cname) = Inr og'"
      and "org_id og' = org_id og" and "username og' = username og"
      and "query og' ''SELECT Name, Id FROM Account'' = query og ''SELECT Name, Id FROM Account''"
    for og sdk' og'
    using that by (intro connection_task_depends_on_answer [of sdk cname og sdk' og'])
      (simp_all add: fixed)
  have sent: "queries_sent (snd (connection_task sdk cname)) =
       (case getAuthorization sdk (trim cname) of
          Inl e \<Rightarrow> []
        | Inr og \<Rightarrow> [''SELECT Name, Id FROM Account''])"
    by (simp add: connection_task_def connection_try_def Let_def fixed
          split: sum.splits prod.splits)
  have unread: "\<forall>sched names req req'.
          index_handler sdk sched names req = index_handler sdk sched names req'"
    by (simp add: index_handler_def)
  show ?thesis
  proof (intro conjI allI impI)
    fix og qr accs
    assume "getAuthorization sdk (trim cname) = Inr og"
      and "query og ''SELECT Name, Id FROM Account'' = Inr qr
            \<and> map_raising project (records qr) = Inr accs"
    then show "fst (connection_task sdk cname) =
              Inr \<lparr>connectionName = trim cname, accounts = accs, error = None\<rparr>"
      using ok by blast
  next
    fix og msg
    assume "getAuthorization sdk (trim cname) = Inr og"
      and "query og ''SELECT Name, Id FROM Account'' = Inl (Error msg)"
    then show "fst (connection_task sdk cname) =
              Inr \<lparr>connectionName = trim cname, accounts = [], error = Some (JString msg)\<rparr>"
      by (rule ko)
  next
    fix og :: org and sdk' :: applink and og' :: org
    assume g: "getAuthorization sdk (trim cname) = Inr og"
      and h: "getAuthorization sdk' (trim cname) = Inr og'
            \<and> org_id og' = org_id og \<and> username og' = username og
            \<and> query og' ''SELECT Name, Id FROM Account'' =
                query og ''SELECT Name, Id FROM Account''"
    from h have h1: "getAuthorization sdk' (trim cname) = Inr og'"
      and h2: "org_id og' = org_id og" and h3: "username og' = username og"
      and h4: "query og' ''SELECT Name, Id FROM Account'' =
                query og ''SELECT Name, Id FROM Account''"
      by simp_all
    show "connection_task sdk' cname = connection_task sdk cname"
      by (rule same [OF g h1 h2 h3 h4])
  next
    show "queries_sent (snd (connection_task sdk cname)) =
       (case getAuthorization sdk (trim cname) of
          Inl e \<Rightarrow> []
        | Inr og \<Rightarrow> [''SELECT Name, Id FROM Account''])"
      by (rule sent)
  next
    fix sched names req req'
    show "index_handler sdk sched names req = index_handler sdk sched names req'"
      using unread by blast
  qed
qed

theorem query_text_fixed_witness:
  "getAuthorization picky_sdk (trim ''org-a'') = Inr picky_org
   \<and> query picky_org ''SELECT Id FROM Contact'' = Inr contact_result
   \<and> fst (connection_task picky_sdk ''org-a'') =
       Inr \<lparr>connectionName = ''org-a'', accounts = [acme_row], error = None\<rparr>"
proof -
  let ?qr = "\<lparr>totalSize = 1, is_done = True,
              records = [\<lparr>record_fields = Some [(''Name'', JString ''Acme''),
                                                  (''Id'', JString ''001'')]\<rparr>]\<rparr>"
  have g: "getAuthorization picky_sdk (trim ''org-a'') = Inr picky_org"
    by (simp add: trim_org_a picky_sdk_def)
  have c: "query picky_org ''SELECT Id FROM Contact'' = Inr contact_result"
    by (simp add: picky_org_def)
  have q: "query picky_org ''SELECT Name, Id FROM Account'' = Inr ?qr"
    by (simp add: picky_org_def)
  have p: "map_raising project (records ?qr) = Inr [acme_row]"
    by (simp add: project_def get_prop_def acme_row_def)
  note t = query_text_fixed [where sdk = picky_sdk and cname = "''org-a''"]
  from t g q p have "fst (connection_task picky_sdk ''org-a'') =
       Inr \<lparr>connectionName = trim ''org-a'', accounts = [acme_row], error = None\<rparr>"
    by blast
  with g c show ?thesis by (simp add: trim_org_a)
qed

text \<open>
  Claim C8 as stated fails: a caller that passes \<open>SELECT Id FROM Contact\<close> as the query
  text of its request, to an engine that would answer it with the contact \<open>003\<close>, is
  given the accounts, the answer to the fixed text; nothing of the request reaches the
  engine.
\<close>

theorem query_text_counterexample:
  "query_params contact_request = [(''queryText'', ''SELECT Id FROM Contact'')]
   \<and> query picky_org ''SELECT Id FROM Contact'' = Inr contact_result
   \<and> map_raising project (records contact_result) =
       Inr [[(''Name'', JUndefined), (''Id'', JString ''003'')]]
   \<and> index_handler picky_sdk [0] [''org-a''] contact_request =
       Some (Render [\<lparr>connectionName = ''org-a'', accounts = [acme_row], error = None\<rparr>])
   \<and> queries_sent (snd (connection_task picky_sdk ''org-a'')) =
       [''SELECT Name, Id FROM Account'']"
  by (simp add: contact_request_def picky_org_def contact_result_def project_def get_prop_def
        index_handler_def accountsByOrg_def promise_all_def picky_task)

section \<open>Properties of the bulk job monitor\<close>

lemma loop_raise:
  "getInfo (bulkApi og) h n = Inl e \<Longrightarrow>
   monitor_loop og h n tr = Some (Inl e, tr @ [CallGetInfo h])"
  by (subst monitor_loop.simps) simp

lemma loop_wait:
  "\<not> stops_at og h n \<Longrightarrow>
   monitor_loop og h n tr = monitor_loop og h (n + 1) (tr @ waiting_round og h n)"
proof -
  assume "\<not> stops_at og h n"
  then obtain info where "getInfo (bulkApi og) h n = Inr info"
    and "state info \<notin> set terminal_states"
    by (auto simp: stops_at_def split: sum.splits)
  then show ?thesis
    by (subst monitor_loop.simps) (simp add: waiting_round_def Let_def)
qed

lemma waiting_rounds_Suc:
  "waiting_rounds og h n (Suc m) = waiting_rounds og h n m @ waiting_round og h (n + m)"
  by (simp add: waiting_rounds_def)

lemma loop_skip:
  "\<forall>k<m. \<not> stops_at og h (n + k) \<Longrightarrow>
   monitor_loop og h n tr = monitor_loop og h (n + m) (tr @ waiting_rounds og h n m)"
proof (induction m)
  case 0
  then show ?case by (simp add: waiting_rounds_def)
next
  case (Suc m)
  then have "monitor_loop og h n tr = monitor_loop og h (n + m) (tr @ waiting_rounds og h n m)"
    by simp
  also have "\<dots> = monitor_loop og h (n + m + 1)
                     ((tr @ waiting_rounds og h n m) @ waiting_round og h (n + m))"
    using Suc.prems by (intro loop_wait) simp
  finally show ?case by (simp add: waiting_rounds_Suc)
qed

lemma loop_final:
  assumes "getInfo (bulkApi og) h n = Inr info" and "state info \<in> set terminal_states"
  shows "monitor_loop og h n tr =
     (let tr1 = tr @ [CallGetInfo h, LogJobStatus (job_id h) (state info)
                        (numberRecordsProcessed info) (numberRecordsFailed info)]
      in if state info = ''JobComplete'' then
           (if numberRecordsFailed info > 0 then
              (case getFailedResults (bulkApi og) h of
                 Inl e \<Rightarrow> Some (Inl e, tr1 @ [CallGetFailedResults h])
               | Inr fr \<Rightarrow> Some (Inr (), tr1 @ [CallGetFailedResults h, LogFailedRecords fr]))
            else Some (Inr (), tr1 @ [LogCompleted (job_id h) (numberRecordsProcessed info)]))
         else Some (Inr (), tr1 @ [LogEndedInState (job_id h) (state info)]))"
  using assms by (subst monitor_loop.simps) (simp add: Let_def)

lemma loop_stops_returns:
  assumes "stops_at og h n"
  shows "\<exists>y. monitor_loop og h n tr = Some y"
proof (cases "getInfo (bulkApi og) h n")
  case (Inl e)
  then show ?thesis by (simp add: loop_raise)
next
  case (Inr info)
  with assms have "state info \<in> set terminal_states" by (simp add: stops_at_def)
  with Inr show ?thesis by (simp add: loop_final Let_def split: sum.splits)
qed

lemma loop_returns_stops:
  assumes ret: "monitor_loop og h n tr = Some y"
  shows "\<exists>k\<ge>n. stops_at og h k"
proof (rule monitor_loop.raw_induct [where P = "\<lambda>og h n tr y. \<exists>k\<ge>n. stops_at og h k", OF _ ret])
  fix loop :: "org \<Rightarrow> job_handle \<Rightarrow> nat \<Rightarrow> event list \<Rightarrow> ((js_error + unit) \<times> event list) option"
    and og h n tr y
  assume IH: "\<And>og h n tr y. loop og h n tr = Some y \<Longrightarrow> \<exists>k\<ge>n. stops_at og h k"
  assume body: "(case getInfo (bulkApi og) h n of
        Inl e \<Rightarrow> Some (Inl e, tr @ [CallGetInfo h])
      | Inr jobInfo \<Rightarrow>
          (let tr1 = tr @ [CallGetInfo h,
                           LogJobStatus (job_id h) (state jobInfo)
                             (numberRecordsProcessed jobInfo) (numberRecordsFailed jobInfo)];
               isComplete = (state jobInfo \<in> set terminal_states)
           in if isComplete then
                (if state jobInfo = ''JobComplete'' then
                   (if numberRecordsFailed jobInfo > 0 then
                      (case getFailedResults (bulkApi og) h of
                         Inl e \<Rightarrow> Some (Inl e, tr1 @ [CallGetFailedResults h])
                       | Inr failedResults \<Rightarrow>
                           Some (Inr (), tr1 @ [CallGetFailedResults h,
                                                LogFailedRecords failedResults]))
                    else Some (Inr (), tr1 @ [LogCompleted (job_id h)
                                                (numberRecordsProcessed jobInfo)]))
                 else Some (Inr (), tr1 @ [LogEndedInState (job_id h) (state jobInfo)]))
              else loop og h (n + 1) (tr1 @ [Sleep 5000]))) = Some y"
  show "\<exists>k\<ge>n. stops_at og h k"
  proof (cases "stops_at og h n")
    case True
    then show ?thesis by blast
  next
    case False
    then obtain info where i: "getInfo (bulkApi og) h n = Inr info"
      "state info \<notin> set terminal_states"
      by (auto simp: stops_at_def split: sum.splits)
    from body have "\<exists>tr'. loop og h (n + 1) tr' = Some y"
      unfolding i(1) sum.case Let_def using i(2) by auto
    then obtain tr' where "loop og h (n + 1) tr' = Some y" ..
    from IH [OF this] obtain k where k: "n + 1 \<le> k" "stops_at og h k" by blast
    from k(1) have "n \<le> k" by simp
    with k(2) show ?thesis by blast
  qed
qed

lemma loop_terminates_iff:
  "(\<exists>y. monitor_loop og h n tr = Some y) \<longleftrightarrow> (\<exists>k\<ge>n. stops_at og h k)"
proof
  assume "\<exists>y. monitor_loop og h n tr = Some y"
  then show "\<exists>k\<ge>n. stops_at og h k" using loop_returns_stops by blast
next
  assume "\<exists>k\<ge>n. stops_at og h k"
  then obtain k where k: "k \<ge> n" "stops_at og h k" by blast
  define j where "j = (LEAST j. n \<le> j \<and> stops_at og h j)"
  have j: "n \<le> j \<and> stops_at og h j"
    unfolding j_def using k by (intro LeastI [of "\<lambda>j. n \<le> j \<and> stops_at og h j" k]) simp
  have least: "\<not> stops_at og h i" if "n \<le> i" "i < j" for i
    using that not_less_Least [of i "\<lambda>j. n \<le> j \<and> stops_at og h j"] by (simp add: j_def)
  have "\<forall>i<j - n. \<not> stops_at og h (n + i)" using least by simp
  from loop_skip [OF this, of tr] j
  have "monitor_loop og h n tr = monitor_loop og h j (tr @ waiting_rounds og h n (j - n))"
    by simp
  with loop_stops_returns [of og h j] j show "\<exists>y. monitor_loop og h n tr = Some y" by simp
qed

lemma polls_append: "polls (xs @ ys) = polls xs + polls ys"
  by (simp add: polls_def)

lemma sleeps_append: "sleeps (xs @ ys) = sleeps xs + sleeps ys"
  by (simp add: sleeps_def)

lemma fetches_append: "fetches (xs @ ys) = fetches xs + fetches ys"
  by (simp add: fetches_def)

lemma success_logs_append: "success_logs (xs @ ys) = success_logs xs + success_logs ys"
  by (simp add: success_logs_def)

lemma waiting_round_counts:
  "\<not> stops_at og h k \<Longrightarrow>
   polls (waiting_round og h k) = 1 \<and> sleeps (waiting_round og h k) = 1
   \<and> fetches (waiting_round og h k) = 0 \<and> success_logs (waiting_round og h k) = 0"
  by (auto simp: stops_at_def waiting_round_def polls_def sleeps_def fetches_def success_logs_def
        split: sum.splits)

lemma waiting_rounds_counts:
  "\<forall>k<m. \<not> stops_at og h (n + k) \<Longrightarrow>
   polls (waiting_rounds og h n m) = m \<and> sleeps (waiting_rounds og h n m) = m
   \<and> fetches (waiting_rounds og h n m) = 0 \<and> success_logs (waiting_rounds og h n m) = 0"
proof (induction m)
  case 0
  then show ?case
    by (simp add: waiting_rounds_def polls_def sleeps_def fetches_def success_logs_def)
next
  case (Suc m)
  then show ?case
    by (simp add: waiting_rounds_Suc polls_append sleeps_append fetches_append
          success_logs_append waiting_round_counts)
qed

lemma monitor_reaches:
  "\<forall>k<n. \<not> stops_at og h k \<Longrightarrow>
   monitor_loop og h 0 [] = monitor_loop og h n (waiting_rounds og h 0 n)"
  using loop_skip [of n og h 0 "[]"] by simp

lemma monitorBulkJob_final:
  assumes "\<forall>k<n. \<not> stops_at og h k"
    and "getInfo (bulkApi og) h n = Inr info"
    and "state info \<in> set terminal_states"
  shows "monitorBulkJob og h =
     Some (Inr (),
       waiting_rounds og h 0 n
       @ [CallGetInfo h, LogJobStatus (job_id h) (state info)
            (numberRecordsProcessed info) (numberRecordsFailed info)]
       @ (if state info = ''JobComplete'' then
            (if 0 < numberRecordsFailed info then
               (case getFailedResults (bulkApi og) h of
                  Inl e \<Rightarrow> [CallGetFailedResults h, LogErrorMonitoring e]
                | Inr fr \<Rightarrow> [CallGetFailedResults h, LogFailedRecords fr])
             else [LogCompleted (job_id h) (numberRecordsProcessed info)])
          else [LogEndedInState (job_id h) (state info)]))"
  unfolding monitorBulkJob_def monitor_reaches [OF assms(1)] loop_final [OF assms(2,3)]
  by (simp add: Let_def split: sum.splits)

lemma monitorBulkJob_raise:
  assumes "\<forall>k<n. \<not> stops_at og h k"
    and "getInfo (bulkApi og) h n = Inl e"
  shows "monitorBulkJob og h =
     Some (Inr (), waiting_rounds og h 0 n @ [CallGetInfo h, LogErrorMonitoring e])"
  unfolding monitorBulkJob_def monitor_reaches [OF assms(1)] loop_raise [OF assms(2)]
  by simp

lemma count_simps:
  "polls [] = 0" "polls (CallGetInfo h # evs) = Suc (polls evs)"
  "polls (LogJobStatus a b c d # evs) = polls evs" "polls (Sleep ms # evs) = polls evs"
  "polls (CallGetFailedResults h # evs) = polls evs" "polls (LogFailedRecords fr # evs) = polls evs"
  "polls (LogCompleted a c # evs) = polls evs" "polls (LogEndedInState a b # evs) = polls evs"
  "polls (LogErrorMonitoring e # evs) = polls evs"
  "sleeps [] = 0" "sleeps (CallGetInfo h # evs) = sleeps evs"
  "sleeps (LogJobStatus a b c d # evs) = sleeps evs" "sleeps (Sleep ms # evs) = Suc (sleeps evs)"
  "sleeps (CallGetFailedResults h # evs) = sleeps evs" "sleeps (LogFailedRecords fr # evs) = sleeps evs"
  "sleeps (LogCompleted a c # evs) = sleeps evs" "sleeps (LogEndedInState a b # evs) = sleeps evs"
  "sleeps (LogErrorMonitoring e # evs) = sleeps evs"
  "fetches [] = 0" "fetches (CallGetInfo h # evs) = fetches evs"
  "fetches (LogJobStatus a b c d # evs) = fetches evs" "fetches (Sleep ms # evs) = fetches evs"
  "fetches (CallGetFailedResults h # evs) = Suc (fetches evs)" "fetches (LogFailedRecords fr # evs) = fetches evs"
  "fetches (LogCompleted a c # evs) = fetches evs" "fetches (LogEndedInState a b # evs) = fetches evs"
  "fetches (LogErrorMonitoring e # evs) = fetches evs"
  "success_logs [] = 0" "success_logs (CallGetInfo h # evs) = success_logs evs"
  "success_logs (LogJobStatus a b c d # evs) = success_logs evs" "success_logs (Sleep ms # evs) = success_logs evs"
  "success_logs (CallGetFailedResults h # evs) = success_logs evs" "success_logs (LogFailedRecords fr # evs) = success_logs evs"
  "success_logs (LogCompleted a c # evs) = Suc (success_logs evs)" "success_logs (LogEndedInState a b # evs) = success_logs evs"
  "success_logs (LogErrorMonitoring e # evs) = success_logs evs"
  by (simp_all add: polls_def sleeps_def fetches_def success_logs_def)

text \<open>
  Claim C3.  When the status requests before number \<open>n\<close> returned non-terminal
  snapshots and request \<open>n\<close> returns a terminal one, the monitor ends there, after
  \<open>n + 1\<close> requests and \<open>n\<close> waits: with exactly one success log carrying the processed
  count when the state is \<open>JobComplete\<close> and no record failed; with exactly one fetch of
  the failed records, logged when it returns, when the state is \<open>JobComplete\<close> and some
  record failed; with the error log of the state when it is \<open>Failed\<close> or \<open>Aborted\<close>.
\<close>

theorem terminal_snapshot_finalizes:
  assumes before: "\<forall>k<n. \<not> stops_at og h k"
    and snap: "getInfo (bulkApi og) h n = Inr info"
    and fin_state: "state info \<in> set terminal_states"
  shows "(state info = ''JobComplete'' \<and> numberRecordsFailed info = 0 \<longrightarrow>
            monitorBulkJob og h =
              Some (Inr (), waiting_rounds og h 0 n
                @ [CallGetInfo h,
                   LogJobStatus (job_id h) (state info) (numberRecordsProcessed info)
                     (numberRecordsFailed info),
                   LogCompleted (job_id h) (numberRecordsProcessed info)]))
       \<and> (state info = ''JobComplete'' \<and> 0 < numberRecordsFailed info \<longrightarrow>
            (\<forall>fr. getFailedResults (bulkApi og) h = Inr fr \<longrightarrow>
               monitorBulkJob og h =
                 Some (Inr (), waiting_rounds og h 0 n
                   @ [CallGetInfo h,
                      LogJobStatus (job_id h) (state info) (numberRecordsProcessed info)
                        (numberRecordsFailed info),
                      CallGetFailedResults h, LogFailedRecords fr])))
       \<and> (state info \<noteq> ''JobComplete'' \<longrightarrow>
            monitorBulkJob og h =
              Some (Inr (), waiting_rounds og h 0 n
                @ [CallGetInfo h,
                   LogJobStatus (job_id h) (state info) (numberRecordsProcessed info)
                     (numberRecordsFailed info),
                   LogEndedInState (job_id h) (state info)]))
       \<and> (\<exists>tr. monitorBulkJob og h = Some (Inr (), tr)
             \<and> polls tr = n + 1 \<and> sleeps tr = n
             \<and> success_logs tr =
                 (if state info = ''JobComplete'' \<and> numberRecordsFailed info = 0 then 1 else 0)
             \<and> fetches tr =
                 (if state info = ''JobComplete'' \<and> 0 < numberRecordsFailed info then 1 else 0))"
proof -
  note fin = monitorBulkJob_final [OF before snap fin_state]
  have cnt: "polls (waiting_rounds og h 0 n) = n \<and> sleeps (waiting_rounds og h 0 n) = n
    \<and> fetches (waiting_rounds og h 0 n) = 0 \<and> success_logs (waiting_rounds og h 0 n) = 0"
    using before waiting_rounds_counts [of n og h 0] by simp
  have c1: "state info = ''JobComplete'' \<and> numberRecordsFailed info = 0 \<longrightarrow>
            monitorBulkJob og h =
              Some (Inr (), waiting_rounds og h 0 n
                @ [CallGetInfo h,
                   LogJobStatus (job_id h) (state info) (numberRecordsProcessed info)
                     (numberRecordsFailed info),
                   LogCompleted (job_id h) (numberRecordsProcessed info)])"
    by (simp add: fin)
  have c2: "state info = ''JobComplete'' \<and> 0 < numberRecordsFailed info \<longrightarrow>
            (\<forall>fr. getFailedResults (bulkApi og) h = Inr fr \<longrightarrow>
               monitorBulkJob og h =
                 Some (Inr (), waiting_rounds og h 0 n
                   @ [CallGetInfo h,
                      LogJobStatus (job_id h) (state info) (numberRecordsProcessed info)
                        (numberRecordsFailed info),
                      CallGetFailedResults h, LogFailedRecords fr]))"
    by (simp add: fin)
  have c3: "state info \<noteq> ''JobComplete'' \<longrightarrow>
            monitorBulkJob og h =
              Some (Inr (), waiting_rounds og h 0 n
                @ [CallGetInfo h,
                   LogJobStatus (job_id h) (state info) (numberRecordsProcessed info)
                     (numberRecordsFailed info),
                   LogEndedInState (job_id h) (state info)])"
    by (simp add: fin)
  have c4: "\<exists>tr. monitorBulkJob og h = Some (Inr (), tr)
             \<and> polls tr = n + 1 \<and> sleeps tr = n
             \<and> success_logs tr =
                 (if state info = ''JobComplete'' \<and> numberRecordsFailed info = 0 then 1 else 0)
             \<and> fetches tr =
                 (if state info = ''JobComplete'' \<and> 0 < numberRecordsFailed info then 1 else 0)"
    unfolding fin
    by (simp add: cnt polls_append sleeps_append fetches_append success_logs_append count_simps
          split: sum.splits)
  from c1 c2 c3 c4 show ?thesis by (intro conjI)
qed

lemma script_waits:
  "\<forall>k<2. \<not> stops_at (scripted_org (script_then lst) failed) demo_job k"
  by (simp add: stops_at_def scripted_org_def script_then_def info_queued_def
        info_in_progress_def terminal_states_def)

lemma script_at_2:
  "getInfo (bulkApi (scripted_org (script_then lst) failed)) demo_job 2 = lst"
  by (simp add: scripted_org_def script_then_def)

lemma script_rounds:
  "waiting_rounds (scripted_org (script_then lst) failed) demo_job 0 2 =
     [CallGetInfo demo_job, LogJobStatus ''750xx00000GtITr'' ''Queued'' 0 0, Sleep 5000,
      CallGetInfo demo_job, LogJobStatus ''750xx00000GtITr'' ''InProgress'' 500 0, Sleep 5000]"
  by (simp add: waiting_rounds_def waiting_round_def scripted_org_def script_then_def
        info_queued_def info_in_progress_def demo_job_def upt_rec)

theorem terminal_snapshot_finalizes_witness:
  "(\<not> stops_at (scripted_org (script_then (Inr (info_complete 0))) (Inr [])) demo_job 0
    \<and> \<not> stops_at (scripted_org (script_then (Inr (info_complete 0))) (Inr [])) demo_job 1)
   \<and> getInfo (bulkApi (scripted_org (script_then (Inr (info_complete 0))) (Inr []))) demo_job 2 =
        Inr (info_complete 0)
   \<and> state (info_complete 0) \<in> set terminal_states
   \<and> monitorBulkJob (scripted_org (script_then (Inr (info_complete 0))) (Inr [])) demo_job =
       Some (Inr (),
         [CallGetInfo demo_job, LogJobStatus ''750xx00000GtITr'' ''Queued'' 0 0, Sleep 5000,
          CallGetInfo demo_job, LogJobStatus ''750xx00000GtITr'' ''InProgress'' 500 0, Sleep 5000,
          CallGetInfo demo_job, LogJobStatus ''750xx00000GtITr'' ''JobComplete'' 1000 0,
          LogCompleted ''750xx00000GtITr'' 1000])"
proof -
  let ?og = "scripted_org (script_then (Inr (info_complete 0))) (Inr [])"
  have w: "\<forall>k<2. \<not> stops_at ?og demo_job k" by (rule script_waits)
  have s: "getInfo (bulkApi ?og) demo_job 2 = Inr (info_complete 0)" by (rule script_at_2)
  have t: "state (info_complete 0) \<in> set terminal_states"
    by (simp add: info_complete_def terminal_states_def)
  from terminal_snapshot_finalizes [OF w s t]
  have "monitorBulkJob ?og demo_job =
          Some (Inr (), waiting_rounds ?og demo_job 0 2
            @ [CallGetInfo demo_job,
               LogJobStatus (job_id demo_job) (state (info_complete 0))
                 (numberRecordsProcessed (info_complete 0)) (numberRecordsFailed (info_complete 0)),
               LogCompleted (job_id demo_job) (numberRecordsProcessed (info_complete 0))])"
    by (simp add: info_complete_def)
  then have "monitorBulkJob ?og demo_job =
       Some (Inr (),
         [CallGetInfo demo_job, LogJobStatus ''750xx00000GtITr'' ''Queued'' 0 0, Sleep 5000,
          CallGetInfo demo_job, LogJobStatus ''750xx00000GtITr'' ''InProgress'' 500 0, Sleep 5000,
          CallGetInfo demo_job, LogJobStatus ''750xx00000GtITr'' ''JobComplete'' 1000 0,
          LogCompleted ''750xx00000GtITr'' 1000])"
    unfolding script_rounds by (simp add: info_complete_def demo_job_def)
  with w s t show ?thesis by simp
qed

text \<open>
  Claim C4.  The monitor ends if and only if some status request raises or returns a
  terminal snapshot.  As long as the requests return non-terminal snapshots it goes on
  to the next one, whatever its number, each round being a request, a log and a wait
  of 5000 ms; when request \<open>n\<close> is the first to stop it, the monitor has made \<open>n + 1\<close>
  requests and \<open>n\<close> waits, none after the last request.  Two non-terminal snapshots and
  a terminal one give three requests with a wait between them.
\<close>

theorem monitor_polling:
  "((\<exists>res. monitorBulkJob og h = Some res) \<longleftrightarrow> (\<exists>k. stops_at og h k))
   \<and> (\<forall>n. (\<forall>k<n. \<not> stops_at og h k) \<longrightarrow>
          monitor_loop og h 0 [] = monitor_loop og h n (waiting_rounds og h 0 n)
          \<and> polls (waiting_rounds og h 0 n) = n \<and> sleeps (waiting_rounds og h 0 n) = n)
   \<and> (\<forall>n. (\<forall>k<n. \<not> stops_at og h k) \<and> stops_at og h n \<longrightarrow>
          (\<exists>fin. monitorBulkJob og h =
                    Some (Inr (), waiting_rounds og h 0 n @ CallGetInfo h # fin)
                 \<and> polls fin = 0 \<and> sleeps fin = 0))
   \<and> ((\<forall>k. \<not> stops_at og h k) \<longrightarrow> monitorBulkJob og h = None)
   \<and> (\<forall>i0 i1 i2.
          getInfo (bulkApi og) h 0 = Inr i0 \<and> state i0 \<notin> set terminal_states
          \<and> getInfo (bulkApi og) h 1 = Inr i1 \<and> state i1 \<notin> set terminal_states
          \<and> getInfo (bulkApi og) h 2 = Inr i2 \<and> state i2 \<in> set terminal_states \<longrightarrow>
          (\<exists>fin. monitorBulkJob og h =
                    Some (Inr (),
                      [CallGetInfo h,
                       LogJobStatus (job_id h) (state i0) (numberRecordsProcessed i0)
                         (numberRecordsFailed i0),
                       Sleep 5000,
                       CallGetInfo h,
                       LogJobStatus (job_id h) (state i1) (numberRecordsProcessed i1)
                         (numberRecordsFailed i1),
                       Sleep 5000,
                       CallGetInfo h] @ fin)
                 \<and> polls fin = 0 \<and> sleeps fin = 0))
   \<and> (\<forall>k. \<not> stops_at og h k \<longrightarrow>
          (\<exists>info. getInfo (bulkApi og) h k = Inr info
             \<and> waiting_round og h k =
                 [CallGetInfo h,
                  LogJobStatus (job_id h) (state info) (numberRecordsProcessed info)
                    (numberRecordsFailed info),
                  Sleep 5000]))"
proof -
  have round: "\<exists>info. getInfo (bulkApi og) h k = Inr info
             \<and> waiting_round og h k =
                 [CallGetInfo h,
                  LogJobStatus (job_id h) (state info) (numberRecordsProcessed info)
                    (numberRecordsFailed info),
                  Sleep 5000]"
    if "\<not> stops_at og h k" for k
    using that by (auto simp: stops_at_def waiting_round_def split: sum.splits)
  have iff: "(\<exists>res. monitorBulkJob og h = Some res) \<longleftrightarrow> (\<exists>k. stops_at og h k)"
  proof -
    have "(\<exists>res. monitorBulkJob og h = Some res) \<longleftrightarrow> (\<exists>y. monitor_loop og h 0 [] = Some y)"
      by (auto simp: monitorBulkJob_def split: option.splits sum.splits prod.splits)
    then show ?thesis using loop_terminates_iff [of og h 0 "[]"] by simp
  qed
  have reach: "monitor_loop og h 0 [] = monitor_loop og h n (waiting_rounds og h 0 n)
          \<and> polls (waiting_rounds og h 0 n) = n \<and> sleeps (waiting_rounds og h 0 n) = n"
    if "\<forall>k<n. \<not> stops_at og h k" for n
    using that monitor_reaches [of n og h] waiting_rounds_counts [of n og h 0] by simp
  have stop: "\<exists>fin. monitorBulkJob og h =
                    Some (Inr (), waiting_rounds og h 0 n @ CallGetInfo h # fin)
                 \<and> polls fin = 0 \<and> sleeps fin = 0"
    if w: "\<forall>k<n. \<not> stops_at og h k" and s: "stops_at og h n" for n
  proof (cases "getInfo (bulkApi og) h n")
    case (Inl e)
    from monitorBulkJob_raise [OF w Inl] show ?thesis
      by (simp add: count_simps)
  next
    case (Inr info)
    with s have "state info \<in> set terminal_states" by (simp add: stops_at_def)
    from monitorBulkJob_final [OF w Inr this] show ?thesis
      by (simp add: count_simps split: sum.splits)
  qed
  have never: "monitorBulkJob og h = None" if "\<forall>k. \<not> stops_at og h k"
  proof -
    from that iff have "\<not> (\<exists>res. monitorBulkJob og h = Some res)" by simp
    then show ?thesis by (cases "monitorBulkJob og h") simp_all
  qed
  have three: "\<exists>fin. monitorBulkJob og h =
                    Some (Inr (),
                      [CallGetInfo h,
                       LogJobStatus (job_id h) (state i0) (numberRecordsProcessed i0)
                         (numberRecordsFailed i0),
                       Sleep 5000,
                       CallGetInfo h,
                       LogJobStatus (job_id h) (state i1) (numberRecordsProcessed i1)
                         (numberRecordsFailed i1),
                       Sleep 5000,
                       CallGetInfo h] @ fin)
                 \<and> polls fin = 0 \<and> sleeps fin = 0"
    if a: "getInfo (bulkApi og) h 0 = Inr i0" "state i0 \<notin> set terminal_states"
      "getInfo (bulkApi og) h 1 = Inr i1" "state i1 \<notin> set terminal_states"
      "getInfo (bulkApi og) h 2 = Inr i2" "state i2 \<in> set terminal_states"
    for i0 i1 i2
  proof -
    have n0: "\<not> stops_at og h 0" and n1: "\<not> stops_at og h 1" and s2: "stops_at og h 2"
      using a by (simp_all add: stops_at_def)
    have w: "\<forall>k<2. \<not> stops_at og h k"
    proof (intro allI impI)
      fix k :: nat assume "k < 2"
      then have "k = 0 \<or> k = 1" by arith
      with n0 n1 show "\<not> stops_at og h k" by auto
    qed
    have r: "waiting_rounds og h 0 2 =
               [CallGetInfo h,
                LogJobStatus (job_id h) (state i0) (numberRecordsProcessed i0)
                  (numberRecordsFailed i0),
                Sleep 5000,
                CallGetInfo h,
                LogJobStatus (job_id h) (state i1) (numberRecordsProcessed i1)
                  (numberRecordsFailed i1),
                Sleep 5000]"
      using a(1,3) by (simp add: waiting_rounds_def waiting_round_def upt_rec)
    from stop [OF w s2] show ?thesis by (simp add: r)
  qed
  show ?thesis
    using iff reach stop never three round by (intro conjI allI impI) blast+
qed

lemma demo_job_id: "job_id demo_job = ''750xx00000GtITr''"
  by (simp add: demo_job_def)

theorem monitor_polling_witness:
  "(\<exists>res. monitorBulkJob (scripted_org (script_then (Inr (info_complete 3))) (Inr [])) demo_job =
            Some res)
   \<and> stops_at (scripted_org (script_then (Inr (info_complete 3))) (Inr [])) demo_job 2
   \<and> (\<exists>fin. monitorBulkJob (scripted_org (script_then (Inr (info_complete 3))) (Inr [])) demo_job =
               Some (Inr (),
                 [CallGetInfo demo_job, LogJobStatus ''750xx00000GtITr'' ''Queued'' 0 0,
                  Sleep 5000,
                  CallGetInfo demo_job, LogJobStatus ''750xx00000GtITr'' ''InProgress'' 500 0,
                  Sleep 5000,
                  CallGetInfo demo_job] @ fin)
            \<and> polls fin = 0 \<and> sleeps fin = 0)"
proof -
  let ?og = "scripted_org (script_then (Inr (info_complete 3))) (Inr [])"
  have s: "stops_at ?og demo_job 2"
    by (simp add: stops_at_def script_at_2 info_complete_def terminal_states_def)
  have g0: "getInfo (bulkApi ?og) demo_job 0 = Inr info_queued"
    and g1: "getInfo (bulkApi ?og) demo_job 1 = Inr info_in_progress"
    and g2: "getInfo (bulkApi ?og) demo_job 2 = Inr (info_complete 3)"
    by (simp_all add: scripted_org_def script_then_def)
  have t: "state info_queued \<notin> set terminal_states"
    "state info_in_progress \<notin> set terminal_states"
    "state (info_complete 3) \<in> set terminal_states"
    by (simp_all add: info_queued_def info_in_progress_def info_complete_def terminal_states_def)
  note polling = monitor_polling [of ?og demo_job]
  from polling s have r: "\<exists>res. monitorBulkJob ?og demo_job = Some res" by blast
  from polling g0 g1 g2 t
  have "\<exists>fin. monitorBulkJob ?og demo_job =
               Some (Inr (),
                 [CallGetInfo demo_job,
                  LogJobStatus (job_id demo_job) (state info_queued)
                    (numberRecordsProcessed info_queued) (numberRecordsFailed info_queued),
                  Sleep 5000,
                  CallGetInfo demo_job,
                  LogJobStatus (job_id demo_job) (state info_in_progress)
                    (numberRecordsProcessed info_in_progress)
                    (numberRecordsFailed info_in_progress),
                  Sleep 5000,
                  CallGetInfo demo_job] @ fin)
            \<and> polls fin = 0 \<and> sleeps fin = 0"
    by blast
  then have "\<exists>fin. monitorBulkJob ?og demo_job =
               Some (Inr (),
                 [CallGetInfo demo_job, LogJobStatus ''750xx00000GtITr'' ''Queued'' 0 0,
                  Sleep 5000,
                  CallGetInfo demo_job, LogJobStatus ''750xx00000GtITr'' ''InProgress'' 500 0,
                  Sleep 5000,
                  CallGetInfo demo_job] @ fin)
            \<and> polls fin = 0 \<and> sleeps fin = 0"
    by (simp add: info_queued_def info_in_progress_def demo_job_id)
  with r s show ?thesis by (intro conjI)
qed

text \<open>
  Claim C5.  The monitor never ends by raising.  When a status request raises, or the
  fetch of the failed records does, the error is logged and the monitor ends: the
  request that raised is its last one and the fetch is made once.
\<close>

theorem monitor_catches:
  "(\<forall>r tr. monitorBulkJob og h = Some (r, tr) \<longrightarrow> r = Inr ())
   \<and> (\<forall>n e. (\<forall>k<n. \<not> stops_at og h k) \<and> getInfo (bulkApi og) h n = Inl e \<longrightarrow>
          monitorBulkJob og h =
            Some (Inr (), waiting_rounds og h 0 n @ [CallGetInfo h, LogErrorMonitoring e])
          \<and> polls (waiting_rounds og h 0 n @ [CallGetInfo h, LogErrorMonitoring e]) = n + 1)
   \<and> (\<forall>n info e. (\<forall>k<n. \<not> stops_at og h k) \<and> getInfo (bulkApi og) h n = Inr info
          \<and> state info = ''JobComplete'' \<and> 0 < numberRecordsFailed info
          \<and> getFailedResults (bulkApi og) h = Inl e \<longrightarrow>
          monitorBulkJob og h =
            Some (Inr (), waiting_rounds og h 0 n
              @ [CallGetInfo h,
                 LogJobStatus (job_id h) (state info) (numberRecordsProcessed info)
                   (numberRecordsFailed info),
                 CallGetFailedResults h, LogErrorMonitoring e])
          \<and> polls (waiting_rounds og h 0 n
              @ [CallGetInfo h,
                 LogJobStatus (job_id h) (state info) (numberRecordsProcessed info)
                   (numberRecordsFailed info),
                 CallGetFailedResults h, LogErrorMonitoring e]) = n + 1
          \<and> fetches (waiting_rounds og h 0 n
              @ [CallGetInfo h,
                 LogJobStatus (job_id h) (state info) (numberRecordsProcessed info)
                   (numberRecordsFailed info),
                 CallGetFailedResults h, LogErrorMonitoring e]) = 1)"
proof -
  have caught: "\<forall>r tr. monitorBulkJob og h = Some (r, tr) \<longrightarrow> r = Inr ()"
    by (auto simp: monitorBulkJob_def split: option.splits sum.splits prod.splits)
  have poll: "monitorBulkJob og h =
            Some (Inr (), waiting_rounds og h 0 n @ [CallGetInfo h, LogErrorMonitoring e])
          \<and> polls (waiting_rounds og h 0 n @ [CallGetInfo h, LogErrorMonitoring e]) = n + 1"
    if w: "\<forall>k<n. \<not> stops_at og h k" and g: "getInfo (bulkApi og) h n = Inl e" for n e
    using monitorBulkJob_raise [OF w g] waiting_rounds_counts [of n og h 0] w
    by (simp add: polls_append count_simps)
  have fetch: "monitorBulkJob og h =
            Some (Inr (), waiting_rounds og h 0 n
              @ [CallGetInfo h,
                 LogJobStatus (job_id h) (state info) (numberRecordsProcessed info)
                   (numberRecordsFailed info),
                 CallGetFailedResults h, LogErrorMonitoring e])
          \<and> polls (waiting_rounds og h 0 n
              @ [CallGetInfo h,
                 LogJobStatus (job_id h) (state info) (numberRecordsProcessed info)
                   (numberRecordsFailed info),
                 CallGetFailedResults h, LogErrorMonitoring e]) = n + 1
          \<and> fetches (waiting_rounds og h 0 n
              @ [CallGetInfo h,
                 LogJobStatus (job_id h) (state info) (numberRecordsProcessed info)
                   (numberRecordsFailed info),
                 CallGetFailedResults h, LogErrorMonitoring e]) = 1"
    if w: "\<forall>k<n. \<not> stops_at og h k" and g: "getInfo (bulkApi og) h n = Inr info"
      and c: "state info = ''JobComplete''" and f: "0 < numberRecordsFailed info"
      and x: "getFailedResults (bulkApi og) h = Inl e" for n info e
  proof -
    have "state info \<in> set terminal_states" using c by (simp add: terminal_states_def)
    from monitorBulkJob_final [OF w g this] c f x waiting_rounds_counts [of n og h 0] w
    show ?thesis by (simp add: polls_append fetches_append count_simps)
  qed
  show ?thesis
    using caught poll fetch by (intro conjI allI impI) blast+
qed

theorem monitor_catches_witness:
  "(\<not> stops_at (scripted_org (script_then (Inl (Error ''socket hang up''))) (Inr [])) demo_job 0
    \<and> \<not> stops_at (scripted_org (script_then (Inl (Error ''socket hang up''))) (Inr [])) demo_job 1)
   \<and> getInfo (bulkApi (scripted_org (script_then (Inl (Error ''socket hang up''))) (Inr [])))
        demo_job 2 = Inl (Error ''socket hang up'')
   \<and> monitorBulkJob (scripted_org (script_then (Inl (Error ''socket hang up''))) (Inr [])) demo_job =
       Some (Inr (),
         [CallGetInfo demo_job, LogJobStatus ''750xx00000GtITr'' ''Queued'' 0 0, Sleep 5000,
          CallGetInfo demo_job, LogJobStatus ''750xx00000GtITr'' ''InProgress'' 500 0, Sleep 5000,
          CallGetInfo demo_job, LogErrorMonitoring (Error ''socket hang up'')])"
proof -
  let ?og = "scripted_org (script_then (Inl (Error ''socket hang up''))) (Inr [])"
  have w: "\<forall>k<2. \<not> stops_at ?og demo_job k" by (rule script_waits)
  have g: "getInfo (bulkApi ?og) demo_job 2 = Inl (Error ''socket hang up'')"
    by (rule script_at_2)
  from monitor_catches [of ?og demo_job] w g
  have "monitorBulkJob ?og demo_job =
          Some (Inr (), waiting_rounds ?og demo_job 0 2
            @ [CallGetInfo demo_job, LogErrorMonitoring (Error ''socket hang up'')])"
    by blast
  then have "monitorBulkJob ?og demo_job =
       Some (Inr (),
         [CallGetInfo demo_job, LogJobStatus ''750xx00000GtITr'' ''Queued'' 0 0, Sleep 5000,
          CallGetInfo demo_job, LogJobStatus ''750xx00000GtITr'' ''InProgress'' 500 0, Sleep 5000,
          CallGetInfo demo_job, LogErrorMonitoring (Error ''socket hang up'')])"
    unfolding script_rounds by simp
  with w g show ?thesis by simp
qed

section \<open>Properties of the bulk demo and its generators\<close>




















lemma connection_task_keys: "lookup_keys (snd (connection_task sdk cname)) = [trim cname]"
  by (simp add: connection_task_def connection_try_def Let_def split: sum.splits prod.splits)



text \<open>
  Claim C9.  When no entry of the configured list is exactly \<open>empty-org\<close>, the bulk demo
  answers 400 with \<open>empty-org connection not found\<close> and does nothing else, also when an
  entry of the list is \<open>empty-org\<close> once trimmed; the fan-out resolves that very
  entry with the key \<open>empty-org\<close>, names every outcome of it \<open>empty-org\<close> and, when the
  collaborator answers for \<open>empty-org\<close>, is fulfilled with the success outcome.
\<close>

theorem bulk_demo_exact_name:
  assumes "emptyOrgName \<notin> set names"
  shows "bulk_demo sdk names draws = (Send 400 ''empty-org connection not found'', [])
       \<and> (\<forall>cname\<in>set names. trim cname = emptyOrgName \<longrightarrow>
             lookup_keys (snd (connection_task sdk cname)) = [''empty-org'']
             \<and> (\<forall>out. fst (connection_task sdk cname) = Inr out \<longrightarrow>
                   connectionName out = ''empty-org'')
             \<and> (\<forall>og qr accs. getAuthorization sdk ''empty-org'' = Inr og
                    \<and> query og soql_accounts = Inr qr
                    \<and> map_raising project (records qr) = Inr accs \<longrightarrow>
                    fst (connection_task sdk cname) =
                      Inr \<lparr>connectionName = ''empty-org'', accounts = accs, error = None\<rparr>))"
proof (intro conjI ballI impI allI)
  show "bulk_demo sdk names draws = (Send 400 ''empty-org connection not found'', [])"
    using assms by (simp add: bulk_demo_def)
next
  fix cname assume "cname \<in> set names" and t: "trim cname = emptyOrgName"
  show "lookup_keys (snd (connection_task sdk cname)) = [''empty-org'']"
    using t by (simp add: connection_task_keys emptyOrgName_def)
next
  fix cname out
  assume "cname \<in> set names" and t: "trim cname = emptyOrgName"
    and "fst (connection_task sdk cname) = Inr out"
  from connection_task_name [OF this(3)] t show "connectionName out = ''empty-org''"
    by (simp add: emptyOrgName_def)
next
  fix cname og qr accs
  assume "cname \<in> set names" and t: "trim cname = emptyOrgName"
    and "getAuthorization sdk ''empty-org'' = Inr og
         \<and> query og soql_accounts = Inr qr
         \<and> map_raising project (records qr) = Inr accs"
  then show "fst (connection_task sdk cname) =
               Inr \<lparr>connectionName = ''empty-org'', accounts = accs, error = None\<rparr>"
    by (simp add: connection_task_def connection_try_def Let_def emptyOrgName_def)
qed

lemma demo_names: "connectionNames_of (Some ''my-org, empty-org'') = [''my-org'', '' empty-org'']"
  by (simp add: connectionNames_of_def)

lemma trim_empty_org: "trim '' empty-org'' = ''empty-org''"
  by (simp add: trim_def is_whitespace_def)

theorem bulk_demo_exact_name_witness:
  "emptyOrgName \<notin> set (connectionNames_of (Some ''my-org, empty-org''))
   \<and> '' empty-org'' \<in> set (connectionNames_of (Some ''my-org, empty-org''))
   \<and> trim '' empty-org'' = emptyOrgName
   \<and> bulk_demo empty_org_sdk (connectionNames_of (Some ''my-org, empty-org'')) demo_draws =
       (Send 400 ''empty-org connection not found'', [])
   \<and> fst (connection_task empty_org_sdk '' empty-org'') =
       Inr \<lparr>connectionName = ''empty-org'', accounts = [], error = None\<rparr>"
proof -
  let ?names = "connectionNames_of (Some ''my-org, empty-org'')"
  have absent: "emptyOrgName \<notin> set ?names"
    by (simp add: demo_names emptyOrgName_def)
  have present: "'' empty-org'' \<in> set ?names" by (simp add: demo_names)
  have trimmed: "trim '' empty-org'' = emptyOrgName"
    by (simp add: trim_empty_org emptyOrgName_def)
  note c = bulk_demo_exact_name [OF absent, of empty_org_sdk demo_draws]
  from c have b: "bulk_demo empty_org_sdk ?names demo_draws =
       (Send 400 ''empty-org connection not found'', [])"
    by (rule conjunct1)
  from c present trimmed have
    s: "\<forall>og qr accs. getAuthorization empty_org_sdk ''empty-org'' = Inr og
                    \<and> query og soql_accounts = Inr qr
                    \<and> map_raising project (records qr) = Inr accs \<longrightarrow>
                    fst (connection_task empty_org_sdk '' empty-org'') =
                      Inr \<lparr>connectionName = ''empty-org'', accounts = accs, error = None\<rparr>"
    by blast
  let ?og = "scripted_org (script_then (Inr (info_complete 0))) (Inr [])"
  let ?qr = "\<lparr>totalSize = 0, is_done = True, records = []\<rparr>"
  have "getAuthorization empty_org_sdk ''empty-org'' = Inr ?og"
    and "query ?og soql_accounts = Inr ?qr"
    and "map_raising project (records ?qr) = Inr []"
    by (simp_all add: empty_org_sdk_def scripted_org_def)
  with s have "fst (connection_task empty_org_sdk '' empty-org'') =
       Inr \<lparr>connectionName = ''empty-org'', accounts = [], error = None\<rparr>"
    by blast
  with absent present trimmed b show ?thesis by (intro conjI)
qed

end
